theory Spec2Isabelle
  imports Complex_Main "HOL-Library.AList" "HOL-Library.DAList" "HOL-Library.Multiset"
begin

section \<open>Data model\<close>

text \<open>
  The connectors keep prices and sizes as JavaScript numbers obtained with
  \<^verbatim>\<open>parseFloat\<close>. A number is modelled by the rational it denotes: a level
  \<^verbatim>\<open>[priceString, sizeString]\<close> of a wire message is the pair of the two parsed
  numbers. The connectors only store and compare these numbers; the one place where
  numbers are added is the page, where the addition is a parameter. NaN and the
  infinities are outside this model. Update identifiers and timestamps are integers.

  A JavaScript \<^verbatim>\<open>Map<number, number>\<close> is an association list with unique keys
  in insertion order: \<^verbatim>\<open>set\<close> on a present key replaces the value in place, on an
  absent key it appends; \<^verbatim>\<open>delete\<close> removes the entry. The maps keyed by ticker are
  only ever looked up, so they are partial functions.
\<close>

type_synonym level = "rat \<times> rat"

type_synonym ladder = "(rat, rat) alist"

text \<open>\<^verbatim>\<open>Order = {price, size}\<close>; the field \<^verbatim>\<open>size\<close> is written \<open>size'\<close>.\<close>

record Order =
  price :: rat
  size' :: rat

text \<open>\<^verbatim>\<open>Orders = {bid, ask, lastUpdateId?}\<close>.\<close>

record Orders =
  bid :: "Order list"
  ask :: "Order list"
  orders_lastUpdateId :: "int option"

text \<open>\<^verbatim>\<open>tickerData = {price: number | undefined, lastUpdated, orders}\<close>; the field
  \<^verbatim>\<open>price\<close> is written \<open>tprice\<close>.\<close>

record tickerData =
  tprice :: "rat option"
  lastUpdated :: int
  orders :: Orders

text \<open>An entry of \<^verbatim>\<open>orderBooks\<close>: \<^verbatim>\<open>{lastUpdateId, bids, asks}\<close>.\<close>

record orderBook =
  lastUpdateId :: int
  bids :: ladder
  asks :: ladder

text \<open>The Binance and Backpack \<^verbatim>\<open>DepthUpdate\<close>: symbol \<^verbatim>\<open>s\<close>, first and final
  update id \<^verbatim>\<open>U\<close> and \<^verbatim>\<open>u\<close>, changed bids \<^verbatim>\<open>b\<close> and asks \<^verbatim>\<open>a\<close>. Backpack sends
  \<^verbatim>\<open>U\<close> and \<^verbatim>\<open>u\<close> as strings and reads them with \<^verbatim>\<open>parseInt\<close>; the record holds
  the integers read.\<close>

record DepthUpdate =
  du_s :: string
  du_U :: int
  du_u :: int
  du_b :: "level list"
  du_a :: "level list"

text \<open>A REST depth snapshot: \<^verbatim>\<open>{lastUpdateId, bids, asks}\<close>.\<close>

record snapshot =
  snap_lastUpdateId :: int
  snap_bids :: "level list"
  snap_asks :: "level list"

text \<open>Callbacks handed to \<^verbatim>\<open>setTimeout\<close> and not yet run: the 100 ms poll
  \<^verbatim>\<open>checkBuffer\<close> and the 5 s retry of \<^verbatim>\<open>initializeOrderBook\<close>.\<close>

datatype timer = CheckBuffer string | RetryInit string

text \<open>Calls that leave the connector: a snapshot request
  (\<^verbatim>\<open>fetchOrderBookSnapshot\<close>), a reconnect (\<^verbatim>\<open>start()\<close> from the close
  handler) and a frame sent on the socket.\<close>

datatype effect = FetchSnapshot string | Reconnect | Send string

text \<open>An \<^verbatim>\<open>initializeOrderBook\<close> call suspended at \<^verbatim>\<open>await fetchOrderBookSnapshot\<close>:
  its ticker, the \<^verbatim>\<open>U\<close> of the first buffered event, and whether this is the second
  request (made when the first snapshot was older than that event).\<close>

record fetch_wait =
  fw_ticker :: string
  fw_firstEventU :: int
  fw_second :: bool

text \<open>
  The state of a connector. The fields up to \<open>formattedTickers\<close> are the fields of the
  class (Binance and Backpack declare all of them; OKX and Kucoin declare no
  \<^verbatim>\<open>depthUpdateBuffers\<close> and never touch it). The last three record what the
  JavaScript runtime holds for the connector: the pending timers, the suspended
  snapshot requests, and the log of outgoing calls.
\<close>

record connector =
  prices :: "string \<rightharpoonup> tickerData"
  isClosing :: bool
  orderBooks :: "string \<rightharpoonup> orderBook"
  depthUpdateBuffers :: "string \<rightharpoonup> DepthUpdate list"
  isInitializing :: "string \<rightharpoonup> bool"
  trackingOrderBook :: "string set"
  trackingPrice :: "string set"
  formattedTickers :: "string list"
  timers :: "timer list"
  fetching :: "fetch_wait list"
  effects :: "effect list"

section \<open>Ladders\<close>

text \<open>The body of the \<^verbatim>\<open>forEach\<close> over the changed levels of an update:
  \<^verbatim>\<open>if (quantity === 0) ladder.delete(price); else ladder.set(price, quantity)\<close>.\<close>

definition applyLevel :: "ladder \<Rightarrow> level \<Rightarrow> ladder" where
  "applyLevel m lv =
     (case lv of (p, quantity) \<Rightarrow>
        if quantity = 0 then DAList.delete p m else DAList.update p quantity m)"

definition applyLevels :: "ladder \<Rightarrow> level list \<Rightarrow> ladder" where
  "applyLevels m lvs = foldl applyLevel m lvs"

text \<open>The body of the \<^verbatim>\<open>forEach\<close> over the levels of a snapshot:
  \<^verbatim>\<open>if (quantity > 0) ladder.set(price, quantity)\<close>, starting from a new map.\<close>

definition snapshotLevel :: "ladder \<Rightarrow> level \<Rightarrow> ladder" where
  "snapshotLevel m lv =
     (case lv of (p, quantity) \<Rightarrow> if quantity > 0 then DAList.update p quantity m else m)"

definition snapshotLevels :: "level list \<Rightarrow> ladder" where
  "snapshotLevels lvs = foldl snapshotLevel DAList.empty lvs"

text \<open>\<^verbatim>\<open>Array.from(m.entries()).map(([price, size]) => ({price, size}))\<close>.\<close>

definition entries :: "ladder \<Rightarrow> Order list" where
  "entries m = map (\<lambda>(p, s). \<lparr>price = p, size' = s\<rparr>) (DAList.impl_of m)"

text \<open>\<^verbatim>\<open>Array.prototype.sort\<close> is stable; with the comparator
  \<^verbatim>\<open>b.price - a.price\<close> it sorts by descending price, with
  \<^verbatim>\<open>a.price - b.price\<close> by ascending price.\<close>

definition sortDescending :: "Order list \<Rightarrow> Order list" where
  "sortDescending xs = sort_key (\<lambda>x. - price x) xs"

definition sortAscending :: "Order list \<Rightarrow> Order list" where
  "sortAscending xs = sort_key price xs"

text \<open>Every stored level has a size above zero.\<close>

definition ladder_ok :: "ladder \<Rightarrow> bool" where
  "ladder_ok m = list_all (\<lambda>(p, s). 0 < s) (DAList.impl_of m)"

section \<open>Ticker names\<close>

text \<open>\<^verbatim>\<open>ticker.replace(pat, '')\<close> with a string pattern: the first occurrence of
  \<open>pat\<close> is removed.\<close>

fun removeFirst :: "string \<Rightarrow> string \<Rightarrow> string" where
  "removeFirst pat [] = []"
| "removeFirst pat (c # cs) =
     (if take (length pat) (c # cs) = pat then drop (length pat) (c # cs)
      else c # removeFirst pat cs)"

section \<open>Binance\<close>

definition orderBookDepth :: nat where
  "orderBookDepth = 20"

definition parseTicker :: "string \<Rightarrow> string" where
  "parseTicker ticker = removeFirst ''USDT'' ticker"

text \<open>The value used when \<^verbatim>\<open>prices.get(parsedTicker)\<close> is undefined.\<close>

definition defaultData :: tickerData where
  "defaultData =
     \<lparr>tprice = None, lastUpdated = 0,
      orders = \<lparr>bid = [], ask = [], orders_lastUpdateId = None\<rparr>\<rparr>"

definition currentDataOf :: "(string \<rightharpoonup> tickerData) \<Rightarrow> string \<Rightarrow> tickerData" where
  "currentDataOf pm k = (case pm k of Some td \<Rightarrow> td | None \<Rightarrow> defaultData)"

text \<open>\<^verbatim>\<open>updatePricesOrderBook(ticker)\<close>; \<open>now\<close> is the value of \<^verbatim>\<open>Date.now()\<close>.
  The first argument is the class's \<^verbatim>\<open>parseTicker\<close>.\<close>

definition updatePricesOrderBookWith ::
  "(string \<Rightarrow> string) \<Rightarrow> connector \<Rightarrow> string \<Rightarrow> int \<Rightarrow> connector" where
  "updatePricesOrderBookWith parse st ticker now =
     (case orderBooks st ticker of
        None \<Rightarrow> st
      | Some ob \<Rightarrow>
          let parsedTicker = parse ticker;
              currentData = currentDataOf (prices st) parsedTicker;
              bs = take orderBookDepth (sortDescending (entries (bids ob)));
              as = take orderBookDepth (sortAscending (entries (asks ob)))
          in st\<lparr>prices := (prices st)(parsedTicker \<mapsto>
                 \<lparr>tprice = tprice currentData, lastUpdated = now,
                  orders = \<lparr>bid = bs, ask = as,
                            orders_lastUpdateId = Some (lastUpdateId ob)\<rparr>\<rparr>)\<rparr>)"

definition updatePricesOrderBook :: "connector \<Rightarrow> string \<Rightarrow> int \<Rightarrow> connector" where
  "updatePricesOrderBook = updatePricesOrderBookWith parseTicker"

text \<open>\<^verbatim>\<open>checkBuffer\<close>, the poll inside the promise awaited by
  \<^verbatim>\<open>initializeOrderBook\<close>. With an empty buffer it re-arms its timer. With a buffered
  event the promise resolves and the call goes on to its first
  \<^verbatim>\<open>fetchOrderBookSnapshot\<close>, remembering \<^verbatim>\<open>buffer[0].U\<close>.\<close>

definition checkBuffer :: "connector \<Rightarrow> string \<Rightarrow> connector" where
  "checkBuffer st ticker =
     (let buffer = (case depthUpdateBuffers st ticker of Some b \<Rightarrow> b | None \<Rightarrow> [])
      in case buffer of
           [] \<Rightarrow> st\<lparr>timers := timers st @ [CheckBuffer ticker]\<rparr>
         | firstEvent # _ \<Rightarrow>
             st\<lparr>fetching := fetching st @
                    [\<lparr>fw_ticker = ticker, fw_firstEventU = du_U firstEvent, fw_second = False\<rparr>],
                effects := effects st @ [FetchSnapshot ticker]\<rparr>)"

text \<open>\<^verbatim>\<open>initializeOrderBook(ticker)\<close> up to its first \<^verbatim>\<open>await\<close>: the flag is set,
  the buffer replaced by an empty one, and \<^verbatim>\<open>checkBuffer\<close> runs once.\<close>

definition initializeOrderBook :: "connector \<Rightarrow> string \<Rightarrow> connector" where
  "initializeOrderBook st ticker =
     checkBuffer
       (st\<lparr>isInitializing := (isInitializing st)(ticker \<mapsto> True),
           depthUpdateBuffers := (depthUpdateBuffers st)(ticker \<mapsto> [])\<rparr>)
       ticker"

text \<open>\<^verbatim>\<open>applyDepthUpdate(ticker, data)\<close>.\<close>

definition applyDepthUpdate :: "connector \<Rightarrow> string \<Rightarrow> DepthUpdate \<Rightarrow> int \<Rightarrow> connector" where
  "applyDepthUpdate st ticker data now =
     (case orderBooks st ticker of
        None \<Rightarrow> st
      | Some ob \<Rightarrow>
          if du_u data \<le> lastUpdateId ob then st
          else if du_U data > lastUpdateId ob + 1 then
            initializeOrderBook
              (st\<lparr>isInitializing := (isInitializing st)(ticker \<mapsto> True)\<rparr>) ticker
          else
            updatePricesOrderBook
              (st\<lparr>orderBooks := (orderBooks st)(ticker \<mapsto>
                    \<lparr>lastUpdateId = du_u data,
                     bids = applyLevels (bids ob) (du_b data),
                     asks = applyLevels (asks ob) (du_a data)\<rparr>)\<rparr>)
              ticker now)"

text \<open>\<^verbatim>\<open>processDepthUpdate(data)\<close>: buffer while initializing, apply otherwise.\<close>

definition processDepthUpdate :: "connector \<Rightarrow> DepthUpdate \<Rightarrow> int \<Rightarrow> connector" where
  "processDepthUpdate st data now =
     (let ticker = du_s data in
      if isInitializing st ticker = Some True then
        st\<lparr>depthUpdateBuffers := (depthUpdateBuffers st)(ticker \<mapsto>
              (case depthUpdateBuffers st ticker of Some b \<Rightarrow> b | None \<Rightarrow> []) @ [data])\<rparr>
      else applyDepthUpdate st ticker data now)"

text \<open>The rest of \<^verbatim>\<open>initializeOrderBook\<close>, once the snapshot is there: install
  it, replay the buffered events that end after it, publish, leave the initializing
  state. \<open>buffer\<close> is the content, at that moment, of the array the call captured after
  its wait; \<open>now\<close> is the clock of this run.\<close>

definition finishInitialize :: "connector \<Rightarrow> string \<Rightarrow> int \<Rightarrow> connector" where
  "finishInitialize st ticker now =
     (let st1 = updatePricesOrderBook st ticker now
      in st1\<lparr>isInitializing := (isInitializing st1)(ticker \<mapsto> False),
             depthUpdateBuffers := (depthUpdateBuffers st1)(ticker \<mapsto> [])\<rparr>)"

definition installSnapshot :: "connector \<Rightarrow> string \<Rightarrow> snapshot \<Rightarrow> connector" where
  "installSnapshot st ticker snap =
     st\<lparr>orderBooks := (orderBooks st)(ticker \<mapsto>
          \<lparr>lastUpdateId = snap_lastUpdateId snap,
           bids = snapshotLevels (snap_bids snap),
           asks = snapshotLevels (snap_asks snap)\<rparr>)\<rparr>"

definition firstEventValid :: "snapshot \<Rightarrow> DepthUpdate \<Rightarrow> bool" where
  "firstEventValid snap ev =
     (du_U ev \<le> snap_lastUpdateId snap + 1 \<and> du_u ev \<ge> snap_lastUpdateId snap + 1)"

definition initializeOrderBook_install ::
  "connector \<Rightarrow> string \<Rightarrow> DepthUpdate list \<Rightarrow> snapshot \<Rightarrow> int \<Rightarrow> connector" where
  "initializeOrderBook_install st ticker buffer snap now =
     (let st1 = installSnapshot st ticker snap;
          validEvents = filter (\<lambda>ev. du_u ev > snap_lastUpdateId snap) buffer
      in case validEvents of
           [] \<Rightarrow> finishInitialize st1 ticker now
         | firstValidEvent # _ \<Rightarrow>
             if \<not> firstEventValid snap firstValidEvent then initializeOrderBook st1 ticker
             else finishInitialize
                    (foldl (\<lambda>s ev. applyDepthUpdate s ticker ev now) st1 validEvents)
                    ticker now)"

subsection \<open>The handlers the runtime calls\<close>

text \<open>A parsed socket frame: a ping, a \<^verbatim>\<open>24hrMiniTicker\<close> with its symbol and
  parsed close price, a \<^verbatim>\<open>depthUpdate\<close>, or anything else.\<close>

datatype binance_message =
  Ping string | MiniTicker string rat | DepthUpdateMsg DepthUpdate | OtherMessage

text \<open>\<^verbatim>\<open>onMessage\<close> returns a \<^verbatim>\<open>priceData\<close> (ticker and price) or null.\<close>

definition onMessage ::
  "connector \<Rightarrow> binance_message \<Rightarrow> int \<Rightarrow> connector \<times> (string \<times> rat) option" where
  "onMessage st msg now =
     (case msg of
        Ping p \<Rightarrow> (st\<lparr>effects := effects st @ [Send ''pong'']\<rparr>, None)
      | MiniTicker ticker c \<Rightarrow>
          (st, if ticker \<in> trackingPrice st then Some (ticker, c) else None)
      | DepthUpdateMsg data \<Rightarrow>
          (if du_s data \<in> trackingOrderBook st then processDepthUpdate st data now else st,
           None)
      | OtherMessage \<Rightarrow> (st, None))"

text \<open>\<^verbatim>\<open>ws.onmessage\<close> as installed by \<^verbatim>\<open>connect\<close>.\<close>

definition wsOnMessage :: "connector \<Rightarrow> binance_message \<Rightarrow> int \<Rightarrow> connector" where
  "wsOnMessage st msg now =
     (case onMessage st msg now of
        (st1, None) \<Rightarrow> st1
      | (st1, Some (ticker, p)) \<Rightarrow>
          let parsedTicker = parseTicker ticker;
              currentData = currentDataOf (prices st1) parsedTicker
          in st1\<lparr>prices := (prices st1)(parsedTicker \<mapsto>
                  \<lparr>tprice = Some p, lastUpdated = now, orders = orders currentData\<rparr>)\<rparr>)"

text \<open>\<^verbatim>\<open>onSubscribe\<close>: one SUBSCRIBE frame if any stream is wanted, then
  \<^verbatim>\<open>initializeOrderBook\<close> for every ticker whose book is tracked.\<close>

definition onSubscribe :: "connector \<Rightarrow> string list \<Rightarrow> connector" where
  "onSubscribe st tickers =
     (let wanted = filter (\<lambda>t. t \<in> trackingPrice st \<or> t \<in> trackingOrderBook st) tickers;
          st1 = (if wanted \<noteq> [] then st\<lparr>effects := effects st @ [Send ''SUBSCRIBE'']\<rparr> else st)
      in foldl initializeOrderBook st1 (filter (\<lambda>t. t \<in> trackingOrderBook st) tickers))"

text \<open>\<^verbatim>\<open>ws.onopen\<close>, \<^verbatim>\<open>ws.onclose\<close> (with the close code) and \<^verbatim>\<open>close()\<close>.
  \<^verbatim>\<open>start()\<close> is logged as \<open>Reconnect\<close>.\<close>

definition wsOnOpen :: "connector \<Rightarrow> connector" where
  "wsOnOpen st = (if \<not> isClosing st then onSubscribe st (formattedTickers st) else st)"

definition wsOnClose :: "connector \<Rightarrow> int \<Rightarrow> connector" where
  "wsOnClose st code =
     (if \<not> isClosing st \<and> code \<noteq> 1000 then st\<lparr>effects := effects st @ [Reconnect]\<rparr> else st)"

definition close :: "connector \<Rightarrow> connector" where
  "close st = st\<lparr>isClosing := True\<rparr>"

text \<open>A timer fires: it leaves the pending list and its callback runs.\<close>

definition timerFired :: "connector \<Rightarrow> timer \<Rightarrow> connector" where
  "timerFired st t =
     (if t \<in> set (timers st) then
        (let st1 = st\<lparr>timers := remove1 t (timers st)\<rparr>
         in case t of
              CheckBuffer ticker \<Rightarrow> checkBuffer st1 ticker
            | RetryInit ticker \<Rightarrow> initializeOrderBook st1 ticker)
      else st)"

text \<open>A snapshot request returns. A first snapshot older than the first buffered
  event is dropped for a second request; any other snapshot is installed.\<close>

definition snapshotResolved ::
  "connector \<Rightarrow> fetch_wait \<Rightarrow> DepthUpdate list \<Rightarrow> snapshot \<Rightarrow> int \<Rightarrow> connector" where
  "snapshotResolved st fw buffer snap now =
     (if fw \<in> set (fetching st) then
        (let st1 = st\<lparr>fetching := remove1 fw (fetching st)\<rparr>
         in if \<not> fw_second fw \<and> snap_lastUpdateId snap < fw_firstEventU fw then
              st1\<lparr>fetching := fetching st1 @ [fw\<lparr>fw_second := True\<rparr>],
                  effects := effects st1 @ [FetchSnapshot (fw_ticker fw)]\<rparr>
            else initializeOrderBook_install st1 (fw_ticker fw) buffer snap now)
      else st)"

text \<open>A snapshot request fails: the \<^verbatim>\<open>catch\<close> block arms the 5 s retry.\<close>

definition snapshotRejected :: "connector \<Rightarrow> fetch_wait \<Rightarrow> connector" where
  "snapshotRejected st fw =
     (if fw \<in> set (fetching st) then
        st\<lparr>fetching := remove1 fw (fetching st),
           timers := timers st @ [RetryInit (fw_ticker fw)]\<rparr>
      else st)"

datatype event =
    WsMessage binance_message
  | WsOpen
  | WsClose int
  | TimerFired timer
  | SnapshotResolved fetch_wait "DepthUpdate list" snapshot
  | SnapshotRejected fetch_wait
  | CloseCalled

text \<open>One run of the event loop; each event comes with the clock value of its run.\<close>

definition step :: "connector \<Rightarrow> event \<times> int \<Rightarrow> connector" where
  "step st e =
     (case e of
        (WsMessage msg, now) \<Rightarrow> wsOnMessage st msg now
      | (WsOpen, now) \<Rightarrow> wsOnOpen st
      | (WsClose code, now) \<Rightarrow> wsOnClose st code
      | (TimerFired t, now) \<Rightarrow> timerFired st t
      | (SnapshotResolved fw buffer snap, now) \<Rightarrow> snapshotResolved st fw buffer snap now
      | (SnapshotRejected fw, now) \<Rightarrow> snapshotRejected st fw
      | (CloseCalled, now) \<Rightarrow> close st)"

definition run :: "connector \<Rightarrow> (event \<times> int) list \<Rightarrow> connector" where
  "run st es = foldl step st es"

section \<open>Backpack\<close>

definition backpack_parseTicker :: "string \<Rightarrow> string" where
  "backpack_parseTicker ticker = removeFirst ''_USDC'' ticker"

definition backpack_updatePricesOrderBook :: "connector \<Rightarrow> string \<Rightarrow> int \<Rightarrow> connector" where
  "backpack_updatePricesOrderBook = updatePricesOrderBookWith backpack_parseTicker"

text \<open>Backpack's \<^verbatim>\<open>applyDepthUpdate\<close>: the staleness test, no gap test.\<close>

definition backpack_applyDepthUpdate ::
  "connector \<Rightarrow> string \<Rightarrow> DepthUpdate \<Rightarrow> int \<Rightarrow> connector" where
  "backpack_applyDepthUpdate st ticker data now =
     (case orderBooks st ticker of
        None \<Rightarrow> st
      | Some ob \<Rightarrow>
          if du_u data \<le> lastUpdateId ob then st
          else
            backpack_updatePricesOrderBook
              (st\<lparr>orderBooks := (orderBooks st)(ticker \<mapsto>
                    \<lparr>lastUpdateId = du_u data,
                     bids = applyLevels (bids ob) (du_b data),
                     asks = applyLevels (asks ob) (du_a data)\<rparr>)\<rparr>)
              ticker now)"


section \<open>OKX\<close>

text \<open>An OKX \<^verbatim>\<open>books\<close> frame: \<^verbatim>\<open>arg.instId\<close>, and of \<^verbatim>\<open>data[0]\<close> the asks, the
  bids and \<^verbatim>\<open>parseInt(ts)\<close>.\<close>

record OkxDepthUpdate =
  okx_instId :: string
  okx_asks :: "level list"
  okx_bids :: "level list"
  okx_ts :: int

definition okx_parseTicker :: "string \<Rightarrow> string" where
  "okx_parseTicker ticker = removeFirst ''-USDT'' ticker"

definition okx_updatePricesOrderBook :: "connector \<Rightarrow> string \<Rightarrow> int \<Rightarrow> connector" where
  "okx_updatePricesOrderBook = updatePricesOrderBookWith okx_parseTicker"

text \<open>The rest of OKX's \<^verbatim>\<open>initializeOrderBook\<close> after the snapshot, whose
  \<^verbatim>\<open>parseInt(ts)\<close> becomes the book's update id.\<close>

definition okx_initializeOrderBook_install ::
  "connector \<Rightarrow> string \<Rightarrow> snapshot \<Rightarrow> int \<Rightarrow> connector" where
  "okx_initializeOrderBook_install st ticker snap now =
     (let st1 = okx_updatePricesOrderBook (installSnapshot st ticker snap) ticker now
      in st1\<lparr>isInitializing := (isInitializing st1)(ticker \<mapsto> False)\<rparr>)"

definition okx_processOrderBookUpdate :: "connector \<Rightarrow> OkxDepthUpdate \<Rightarrow> int \<Rightarrow> connector" where
  "okx_processOrderBookUpdate st data now =
     (let ticker = okx_instId data in
      if isInitializing st ticker = Some True then st
      else case orderBooks st ticker of
             None \<Rightarrow> st
           | Some ob \<Rightarrow>
               okx_updatePricesOrderBook
                 (st\<lparr>orderBooks := (orderBooks st)(ticker \<mapsto>
                       \<lparr>lastUpdateId = okx_ts data,
                        bids = applyLevels (bids ob) (okx_bids data),
                        asks = applyLevels (asks ob) (okx_asks data)\<rparr>)\<rparr>)
                 ticker now)"

section \<open>Kucoin\<close>

text \<open>A Kucoin level2 frame: the topic, and of \<^verbatim>\<open>data\<close> the sequence range and the
  changes.\<close>

record KucoinLevel2Update =
  kc_topic :: string
  kc_sequenceStart :: int
  kc_sequenceEnd :: int
  kc_asks :: "level list"
  kc_bids :: "level list"

text \<open>\<^verbatim>\<open>topic.split(':')[1]\<close>: the text between the first and the second colon,
  undefined without a colon.\<close>

definition topicTicker :: "string \<Rightarrow> string option" where
  "topicTicker topic =
     (case dropWhile (\<lambda>c. c \<noteq> CHR '':'') topic of
        [] \<Rightarrow> None
      | _ # rest \<Rightarrow> Some (takeWhile (\<lambda>c. c \<noteq> CHR '':'') rest))"

definition kucoin_parseTicker :: "string \<Rightarrow> string" where
  "kucoin_parseTicker ticker = removeFirst ''-USDT'' ticker"

definition kucoin_updatePricesOrderBook :: "connector \<Rightarrow> string \<Rightarrow> int \<Rightarrow> connector" where
  "kucoin_updatePricesOrderBook = updatePricesOrderBookWith kucoin_parseTicker"

text \<open>The rest of Kucoin's \<^verbatim>\<open>initializeOrderBook\<close> after the snapshot, whose
  \<^verbatim>\<open>sequence\<close> becomes the book's update id.\<close>

definition kucoin_initializeOrderBook_install ::
  "connector \<Rightarrow> string \<Rightarrow> snapshot \<Rightarrow> int \<Rightarrow> connector" where
  "kucoin_initializeOrderBook_install st ticker snap now =
     (let st1 = kucoin_updatePricesOrderBook (installSnapshot st ticker snap) ticker now
      in st1\<lparr>isInitializing := (isInitializing st1)(ticker \<mapsto> False)\<rparr>)"

text \<open>With an undefined ticker both map lookups are undefined and the method returns.\<close>

definition kucoin_processOrderBookUpdate ::
  "connector \<Rightarrow> KucoinLevel2Update \<Rightarrow> int \<Rightarrow> connector" where
  "kucoin_processOrderBookUpdate st data now =
     (case topicTicker (kc_topic data) of
        None \<Rightarrow> st
      | Some ticker \<Rightarrow>
          if isInitializing st ticker = Some True then st
          else case orderBooks st ticker of
                 None \<Rightarrow> st
               | Some ob \<Rightarrow>
                   kucoin_updatePricesOrderBook
                     (st\<lparr>orderBooks := (orderBooks st)(ticker \<mapsto>
                           \<lparr>lastUpdateId = kc_sequenceEnd data,
                            bids = applyLevels (bids ob) (kc_bids data),
                            asks = applyLevels (asks ob) (kc_asks data)\<rparr>)\<rparr>)
                     ticker now)"

section \<open>Kraken\<close>

text \<open>Kraken's books carry no update id, and its levels arrive as numbers
  \<^verbatim>\<open>{price, qty}\<close>. Of the class only \<^verbatim>\<open>prices\<close> and \<^verbatim>\<open>orderBooks\<close> are read or
  written by the methods below.\<close>

record krakenBook =
  k_bids :: ladder
  k_asks :: ladder

record kraken =
  k_prices :: "string \<rightharpoonup> tickerData"
  k_orderBooks :: "string \<rightharpoonup> krakenBook"


definition kraken_orderBookDepth :: nat where
  "kraken_orderBookDepth = 100"

text \<open>\<^verbatim>\<open>ticker.split('/')[0]\<close>.\<close>

definition kraken_parseTicker :: "string \<Rightarrow> string" where
  "kraken_parseTicker ticker = takeWhile (\<lambda>c. c \<noteq> CHR ''/'') ticker"

definition kraken_updatePricesOrderBook :: "kraken \<Rightarrow> string \<Rightarrow> int \<Rightarrow> kraken" where
  "kraken_updatePricesOrderBook st symbol now =
     (case k_orderBooks st symbol of
        None \<Rightarrow> st
      | Some ob \<Rightarrow>
          let ticker = kraken_parseTicker symbol;
              currentData = currentDataOf (k_prices st) ticker;
              bs = take kraken_orderBookDepth (sortDescending (entries (k_bids ob)));
              as = take kraken_orderBookDepth (sortAscending (entries (k_asks ob)))
          in st\<lparr>k_prices := (k_prices st)(ticker \<mapsto>
                 \<lparr>tprice = tprice currentData, lastUpdated = now,
                  orders = \<lparr>bid = bs, ask = as, orders_lastUpdateId = None\<rparr>\<rparr>)\<rparr>)"




section \<open>The page: aggregation across exchanges\<close>

text \<open>The page holds its exchanges in an object; \<^verbatim>\<open>Object.entries\<close> lists them by
  name in a fixed order. An exchange that is not yet created is null; of a created one
  the page reads only the \<^verbatim>\<open>prices\<close> map.\<close>

type_synonym exchanges = "(string \<times> (string \<rightharpoonup> tickerData) option) list"

text \<open>
  The page adds sizes with JavaScript's \<^verbatim>\<open>+\<close>. That addition is the first argument
  \<open>add\<close> of the page's functions below. With \<open>(+)\<close> the sizes are added exactly, as the
  exact quantities of the data model; with \<open>js_add\<close> they are added as the running code
  adds two numbers: the exact sum rounded to the nearest binary floating point number
  with a significand of 53 bits, ties to the even significand. Overflow to infinity and
  subnormal numbers are not modelled, and \<open>fl\<close> is also what \<^verbatim>\<open>parseFloat\<close> makes of a
  decimal numeral.
\<close>

definition pow2 :: "int \<Rightarrow> rat" where
  "pow2 e = (if 0 \<le> e then 2 ^ nat e else 1 / 2 ^ nat (- e))"

text \<open>The exponent \<open>e\<close> of a positive number \<open>a\<close>, with \<open>pow2 e \<le> a < pow2 (e + 1)\<close>, found
  by doubling or halving \<open>a\<close> until it lies between 1 and 2. The first argument bounds
  the number of steps; 1100 steps cover the exponents of binary64.\<close>

fun exponentFrom :: "nat \<Rightarrow> rat \<Rightarrow> int" where
  "exponentFrom n a =
     (if n = 0 then 0
      else if a < 1 then exponentFrom (n - 1) (2 * a) - 1
      else if 2 \<le> a then exponentFrom (n - 1) (a / 2) + 1
      else 0)"

declare exponentFrom.simps [simp del]

definition exponentOf :: "rat \<Rightarrow> int" where
  "exponentOf a = exponentFrom 1100 a"

definition roundHalfEven :: "rat \<Rightarrow> int" where
  "roundHalfEven y =
     (let f = \<lfloor>y\<rfloor>; r = y - of_int f
      in if r < 1 / 2 then f else if 1 / 2 < r then f + 1 else if even f then f else f + 1)"

definition fl :: "rat \<Rightarrow> rat" where
  "fl x =
     (if x = 0 then 0
      else let a = \<bar>x\<bar>; q = pow2 (exponentOf a - 52)
           in sgn x * of_int (roundHalfEven (a / q)) * q)"

definition js_add :: "rat \<Rightarrow> rat \<Rightarrow> rat" where
  "js_add a b = fl (a + b)"

text \<open>\<^verbatim>\<open>aggregateOrders\<close>: sizes are summed per price in a map, whose entries are
  then sorted. \<^verbatim>\<open>priceMap.get(order.price) || 0\<close> is 0 for an absent price.\<close>

definition addOrder :: "(rat \<Rightarrow> rat \<Rightarrow> rat) \<Rightarrow> ladder \<Rightarrow> Order \<Rightarrow> ladder" where
  "addOrder add priceMap order =
     (let currentSize = (case DAList.lookup priceMap (price order) of
                           Some c \<Rightarrow> c | None \<Rightarrow> 0)
      in DAList.update (price order) (add currentSize (size' order)) priceMap)"

definition aggregateOrders :: "(rat \<Rightarrow> rat \<Rightarrow> rat) \<Rightarrow> Order list \<Rightarrow> bool \<Rightarrow> Order list" where
  "aggregateOrders add os isBid =
     (let priceMap = foldl (addOrder add) DAList.empty os
      in if isBid then sortDescending (entries priceMap)
         else sortAscending (entries priceMap))"

text \<open>The orders the interval callback collects from one exchange for the selected
  ticker: nothing for a null exchange or a ticker without data.\<close>

definition exchangeOrders ::
  "string \<Rightarrow> bool \<Rightarrow> (string \<rightharpoonup> tickerData) option \<Rightarrow> Order list" where
  "exchangeOrders selectedTicker isBid exchange =
     (case exchange of
        None \<Rightarrow> []
      | Some pm \<Rightarrow>
          (case pm selectedTicker of
             None \<Rightarrow> []
           | Some td \<Rightarrow> if isBid then bid (orders td) else ask (orders td)))"

definition collectOrders :: "exchanges \<Rightarrow> string \<Rightarrow> bool \<Rightarrow> Order list" where
  "collectOrders exs selectedTicker isBid =
     concat (map (\<lambda>(exchangeName, exchange). exchangeOrders selectedTicker isBid exchange) exs)"

text \<open>The aggregated book set by the interval callback: both sides aggregated and cut
  to the selected depth.\<close>

record aggregatedOrderBook =
  agg_bids :: "Order list"
  agg_asks :: "Order list"

definition aggregateTick ::
  "(rat \<Rightarrow> rat \<Rightarrow> rat) \<Rightarrow> exchanges \<Rightarrow> string \<Rightarrow> nat \<Rightarrow> aggregatedOrderBook" where
  "aggregateTick add exs selectedTicker orderbookDepth =
     \<lparr>agg_bids = take orderbookDepth
                   (aggregateOrders add (collectOrders exs selectedTicker True) True),
      agg_asks = take orderbookDepth
                   (aggregateOrders add (collectOrders exs selectedTicker False) False)\<rparr>"

text \<open>\<^verbatim>\<open>getSourcesForPrice\<close>: for each exchange with an order at this price, the sum of
  the sizes of its orders there, keyed by the exchange's name.\<close>

definition addSource ::
  "(rat \<Rightarrow> rat \<Rightarrow> rat) \<Rightarrow> string \<Rightarrow> rat \<Rightarrow> bool \<Rightarrow> (string \<times> rat) list \<Rightarrow>
   string \<times> (string \<rightharpoonup> tickerData) option \<Rightarrow> (string \<times> rat) list" where
  "addSource add selectedTicker p isBid sources e =
     (case e of (exchangeName, exchange) \<Rightarrow>
        let matchingOrders =
              filter (\<lambda>order. price order = p) (exchangeOrders selectedTicker isBid exchange)
        in if length matchingOrders > 0 then
             AList.update exchangeName
               (foldl (\<lambda>sum order. add sum (size' order)) 0 matchingOrders) sources
           else sources)"

definition getSourcesForPrice ::
  "(rat \<Rightarrow> rat \<Rightarrow> rat) \<Rightarrow> exchanges \<Rightarrow> string \<Rightarrow> rat \<Rightarrow> bool \<Rightarrow> (string \<times> rat) list" where
  "getSourcesForPrice add exs selectedTicker p isBid =
     foldl (addSource add selectedTicker p isBid) [] exs"

section \<open>Constructor and invariants\<close>

text \<open>The Binance constructor called with a list of ticker names: every ticker is
  tracked for price and order book, its buffer is empty and it is initializing.\<close>

definition binance_new :: "string list \<Rightarrow> connector" where
  "binance_new tickers =
     (let formatted = map (\<lambda>t. t @ ''USDT'') tickers
      in \<lparr>prices = Map.empty, isClosing = False, orderBooks = Map.empty,
          depthUpdateBuffers = (\<lambda>t. if t \<in> set formatted then Some [] else None),
          isInitializing = (\<lambda>t. if t \<in> set formatted then Some True else None),
          trackingOrderBook = set formatted, trackingPrice = set formatted,
          formattedTickers = formatted, timers = [], fetching = [], effects = []\<rparr>)"

text \<open>The ladder invariant for a whole book, for the book of one ticker in a connector,
  and the range of sizes an exchange sends: zero to delete, positive to set.\<close>

definition book_ok :: "orderBook \<Rightarrow> bool" where
  "book_ok ob = (ladder_ok (bids ob) \<and> ladder_ok (asks ob))"

definition books_ok_at :: "connector \<Rightarrow> string \<Rightarrow> bool" where
  "books_ok_at st t = (case orderBooks st t of None \<Rightarrow> True | Some ob \<Rightarrow> book_ok ob)"

definition sizes_nonneg :: "level list \<Rightarrow> bool" where
  "sizes_nonneg lvs = list_all (\<lambda>(p, quantity). 0 \<le> quantity) lvs"



section \<open>Example states\<close>

text \<open>A Binance connector for BTC whose snapshot with update id 10 has been installed
  with nothing buffered, and a Kraken connector after its first snapshot frame.\<close>

definition live_example :: connector where
  "live_example =
     initializeOrderBook_install (binance_new [''BTC'']) ''BTCUSDT'' []
       \<lparr>snap_lastUpdateId = 10, snap_bids = [(100, 2)], snap_asks = [(101, 3)]\<rparr> 0"



text \<open>The OKX and the Kucoin constructor called with a list of ticker names: as for
  Binance, with the suffix \<^verbatim>\<open>-USDT\<close> and without buffers.\<close>

definition okx_new :: "string list \<Rightarrow> connector" where
  "okx_new tickers =
     (let formatted = map (\<lambda>t. t @ ''-USDT'') tickers
      in \<lparr>prices = Map.empty, isClosing = False, orderBooks = Map.empty,
          depthUpdateBuffers = Map.empty,
          isInitializing = (\<lambda>t. if t \<in> set formatted then Some True else None),
          trackingOrderBook = set formatted, trackingPrice = set formatted,
          formattedTickers = formatted, timers = [], fetching = [], effects = []\<rparr>)"

definition kucoin_new :: "string list \<Rightarrow> connector" where
  "kucoin_new tickers =
     (let formatted = map (\<lambda>t. t @ ''-USDT'') tickers
      in \<lparr>prices = Map.empty, isClosing = False, orderBooks = Map.empty,
          depthUpdateBuffers = Map.empty,
          isInitializing = (\<lambda>t. if t \<in> set formatted then Some True else None),
          trackingOrderBook = set formatted, trackingPrice = set formatted,
          formattedTickers = formatted, timers = [], fetching = [], effects = []\<rparr>)"

text \<open>An OKX and a Kucoin connector for BTC after their snapshot with update id 10.\<close>

definition okx_live_example :: connector where
  "okx_live_example =
     okx_initializeOrderBook_install (okx_new [''BTC'']) ''BTC-USDT''
       \<lparr>snap_lastUpdateId = 10, snap_bids = [(100, 2)], snap_asks = [(101, 3)]\<rparr> 0"

definition kucoin_live_example :: connector where
  "kucoin_live_example =
     kucoin_initializeOrderBook_install (kucoin_new [''BTC'']) ''BTC-USDT''
       \<lparr>snap_lastUpdateId = 10, snap_bids = [(100, 2)], snap_asks = [(101, 3)]\<rparr> 0"

text \<open>A ticker is live in a connector: its book exists and it is not initializing.\<close>

definition live :: "connector \<Rightarrow> string \<Rightarrow> bool" where
  "live st t = (isInitializing st t \<noteq> Some True \<and> orderBooks st t \<noteq> None)"

definition isSnapshotResolved :: "event \<Rightarrow> bool" where
  "isSnapshotResolved e = (case e of SnapshotResolved fw buffer snap \<Rightarrow> True | _ \<Rightarrow> False)"



text \<open>Inputs of the examples: a snapshot with update id 500, and updates for the ids
  498 to 501, 502 to 505 and 510 to 520 of a given symbol.\<close>

definition snapshot_500 :: snapshot where
  "snapshot_500 = \<lparr>snap_lastUpdateId = 500, snap_bids = [(100, 2)], snap_asks = [(101, 3)]\<rparr>"

definition update_498_501 :: "string \<Rightarrow> DepthUpdate" where
  "update_498_501 symbol = \<lparr>du_s = symbol, du_U = 498, du_u = 501, du_b = [(100, 1)], du_a = []\<rparr>"

definition update_502_505 :: "string \<Rightarrow> DepthUpdate" where
  "update_502_505 symbol =
     \<lparr>du_s = symbol, du_U = 502, du_u = 505, du_b = [(100, 0), (99, 4)], du_a = [(101, 0)]\<rparr>"

definition update_510_520 :: "string \<Rightarrow> DepthUpdate" where
  "update_510_520 symbol = \<lparr>du_s = symbol, du_U = 510, du_u = 520, du_b = [(100, 0)], du_a = []\<rparr>"



text \<open>The sum of the sizes of the orders of a list at one price.\<close>

definition sizeAt :: "Order list \<Rightarrow> rat \<Rightarrow> rat" where
  "sizeAt os p = sum_list (map size' (filter (\<lambda>order. price order = p) os))"

text \<open>The sizes of the orders of a list at one price, added from 0 in the order of the
  list with the given addition: what the running code computes as their sum.\<close>

definition sizeAtWith :: "(rat \<Rightarrow> rat \<Rightarrow> rat) \<Rightarrow> Order list \<Rightarrow> rat \<Rightarrow> rat" where
  "sizeAtWith add os p =
     foldl (\<lambda>sum order. add sum (size' order)) 0 (filter (\<lambda>order. price order = p) os)"

text \<open>What a reader of a book expects of the two sides of an \<^verbatim>\<open>Orders\<close> value: bids
  strictly descending and asks strictly ascending by price, at most \<open>n\<close> levels each.
  An entry of a prices map is either absent or has such orders for Binance's depth.\<close>

definition orders_sorted :: "nat \<Rightarrow> Orders \<Rightarrow> bool" where
  "orders_sorted n os =
     (sorted_wrt (\<lambda>x y. price x > price y) (bid os) \<and>
      sorted_wrt (\<lambda>x y. price x < price y) (ask os) \<and>
      length (bid os) \<le> n \<and> length (ask os) \<le> n)"

definition entry_sorted :: "tickerData option \<Rightarrow> bool" where
  "entry_sorted e =
     (case e of None \<Rightarrow> True | Some td \<Rightarrow> orders_sorted orderBookDepth (orders td))"

text \<open>Two exchanges A and B with one bid each at the price 100, of size 2 and 3.\<close>

definition exchanges_example :: exchanges where
  "exchanges_example =
     [(''A'', Some [''BTC'' \<mapsto>
         \<lparr>tprice = None, lastUpdated = 0,
          orders = \<lparr>bid = [\<lparr>price = 100, size' = 2\<rparr>], ask = [],
                    orders_lastUpdateId = None\<rparr>\<rparr>]),
      (''B'', Some [''BTC'' \<mapsto>
         \<lparr>tprice = None, lastUpdated = 0,
          orders = \<lparr>bid = [\<lparr>price = 100, size' = 3\<rparr>], ask = [],
                    orders_lastUpdateId = None\<rparr>\<rparr>])]"


text \<open>The numbers \<^verbatim>\<open>parseFloat\<close> makes of 0.1, 0.2 and 0.3, and three exchanges A, B
  and C with one bid each at the price 100, of these sizes.\<close>

definition size_0_1 :: rat where "size_0_1 = fl (1 / 10)"

definition size_0_2 :: rat where "size_0_2 = fl (2 / 10)"

definition size_0_3 :: rat where "size_0_3 = fl (3 / 10)"

definition exchange_with_bid :: "rat \<Rightarrow> rat \<Rightarrow> (string \<rightharpoonup> tickerData) option" where
  "exchange_with_bid p s =
     Some [''BTC'' \<mapsto>
       \<lparr>tprice = None, lastUpdated = 0,
        orders = \<lparr>bid = [\<lparr>price = p, size' = s\<rparr>], ask = [], orders_lastUpdateId = None\<rparr>\<rparr>]"

definition three_exchanges :: exchanges where
  "three_exchanges =
     [(''A'', exchange_with_bid 100 size_0_1), (''B'', exchange_with_bid 100 size_0_2),
      (''C'', exchange_with_bid 100 size_0_3)]"

text \<open>A price message is a \<^verbatim>\<open>24hrMiniTicker\<close> frame.\<close>

definition isPriceMessage :: "event \<Rightarrow> bool" where
  "isPriceMessage e = (case e of WsMessage (MiniTicker t c) \<Rightarrow> True | _ \<Rightarrow> False)"

text \<open>Two exchanges with bids and asks at several prices.\<close>

definition exchanges_example2 :: exchanges where
  "exchanges_example2 =
     [(''A'', Some [''BTC'' \<mapsto>
         \<lparr>tprice = None, lastUpdated = 0,
          orders = \<lparr>bid = [\<lparr>price = 100, size' = 2\<rparr>, \<lparr>price = 99, size' = 1\<rparr>],
                    ask = [\<lparr>price = 101, size' = 1\<rparr>, \<lparr>price = 102, size' = 4\<rparr>],
                    orders_lastUpdateId = None\<rparr>\<rparr>]),
      (''B'', Some [''BTC'' \<mapsto>
         \<lparr>tprice = None, lastUpdated = 0,
          orders = \<lparr>bid = [\<lparr>price = 101, size' = 3\<rparr>, \<lparr>price = 100, size' = 3\<rparr>],
                    ask = [\<lparr>price = 102, size' = 1\<rparr>, \<lparr>price = 103, size' = 2\<rparr>],
                    orders_lastUpdateId = None\<rparr>\<rparr>])]"


text \<open>A start of a Binance connector for BTC: the socket opens, the update for the
  ids 498 to 501 is buffered, the poll finds it and requests a snapshot, and a snapshot
  with the id 500 and unsorted levels arrives.\<close>

definition startup_events :: "(event \<times> int) list" where
  "startup_events =
     [(WsOpen, 0),
      (WsMessage (DepthUpdateMsg (update_498_501 ''BTCUSDT'')), 1),
      (TimerFired (CheckBuffer ''BTCUSDT''), 2),
      (SnapshotResolved \<lparr>fw_ticker = ''BTCUSDT'', fw_firstEventU = 498, fw_second = False\<rparr>
         [update_498_501 ''BTCUSDT'']
         \<lparr>snap_lastUpdateId = 500, snap_bids = [(99, 1), (100, 2), (98, 3)],
          snap_asks = [(103, 1), (101, 3)]\<rparr>, 3)]"

text \<open>A Binance connector for BTC after its start, and a price message for BTC.\<close>

definition started_example :: connector where
  "started_example = run (binance_new [''BTC'']) startup_events"

text \<open>The reconnects and subscriptions among the outgoing calls of a connector.\<close>

definition reconnects :: "connector \<Rightarrow> effect list" where
  "reconnects st = filter (\<lambda>x. x = Reconnect \<or> x = Send ''SUBSCRIBE'') (effects st)"

text \<open>A Binance connector for BTC that is initializing: the socket opened and one
  update was buffered, the poll has not run yet. Then the events after a \<^verbatim>\<open>close()\<close>
  at that moment: the poll runs, the snapshot request fails, the retry timer fires.\<close>

definition syncing_example :: connector where
  "syncing_example =
     run (binance_new [''BTC''])
       [(WsOpen, 0), (WsMessage (DepthUpdateMsg (update_498_501 ''BTCUSDT'')), 1)]"

definition first_fetch :: fetch_wait where
  "first_fetch = \<lparr>fw_ticker = ''BTCUSDT'', fw_firstEventU = 498, fw_second = False\<rparr>"

definition events_after_close :: "(event \<times> int) list" where
  "events_after_close =
     [(TimerFired (CheckBuffer ''BTCUSDT''), 3), (SnapshotRejected first_fetch, 4),
      (TimerFired (RetryInit ''BTCUSDT''), 5)]"

text \<open>No snapshot request for a ticker is in flight, and an event is the firing of a
  poll timer of a ticker.\<close>

definition noRequestFor :: "connector \<Rightarrow> string \<Rightarrow> bool" where
  "noRequestFor st t = list_all (\<lambda>fw. fw_ticker fw \<noteq> t) (fetching st)"

definition isPollFor :: "string \<Rightarrow> event \<Rightarrow> bool" where
  "isPollFor t e = (case e of TimerFired (CheckBuffer k) \<Rightarrow> k = t | _ \<Rightarrow> False)"

text \<open>
  A Binance connector for BTC whose socket dropped and reopened before the first
  update arrived, so that \<^verbatim>\<open>initializeOrderBook\<close> runs twice for the ticker. Both
  polls find the buffered update for 498 to 501 and each requests a snapshot. The first
  request returns the snapshot with id 500, which is installed; the update for 502 to
  505 is then applied to the live book. The second request is still in flight.
\<close>

definition double_start_events :: "(event \<times> int) list" where
  "double_start_events =
     [(WsOpen, 0), (WsClose 1006, 1), (WsOpen, 2),
      (WsMessage (DepthUpdateMsg (update_498_501 ''BTCUSDT'')), 3),
      (TimerFired (CheckBuffer ''BTCUSDT''), 4),
      (TimerFired (CheckBuffer ''BTCUSDT''), 5),
      (SnapshotResolved first_fetch [update_498_501 ''BTCUSDT''] snapshot_500, 6),
      (WsMessage (DepthUpdateMsg (update_502_505 ''BTCUSDT'')), 7)]"

definition double_start_example :: connector where
  "double_start_example = run (binance_new [''BTC'']) double_start_events"

text \<open>Then the update for 510 to 520 arrives, and after it the answer to the second
  request: the same snapshot with id 500, for the call that had captured the buffer
  with the update for 498 to 501.\<close>

definition gap_example :: connector where
  "gap_example =
     step double_start_example (WsMessage (DepthUpdateMsg (update_510_520 ''BTCUSDT'')), 8)"

definition stale_resync_example :: connector where
  "stale_resync_example =
     step gap_example
       (SnapshotResolved first_fetch [update_498_501 ''BTCUSDT''] snapshot_500, 9)"

text \<open>Inputs for the live Binance connector with update id 10: an update for the ids
  12 to 15, one for 16 to 17, events without a snapshot, events without a poll of the
  ticker, a snapshot with the id 501, and a Kucoin update for the sequence 30 to 31.\<close>

definition update_12_15 :: DepthUpdate where
  "update_12_15 = \<lparr>du_s = ''BTCUSDT'', du_U = 12, du_u = 15, du_b = [(100, 0)], du_a = []\<rparr>"

definition update_16_17 :: DepthUpdate where
  "update_16_17 = \<lparr>du_s = ''BTCUSDT'', du_U = 16, du_u = 17, du_b = [(99, 1)], du_a = []\<rparr>"

definition events_without_snapshot :: "(event \<times> int) list" where
  "events_without_snapshot =
     [(WsMessage (DepthUpdateMsg update_16_17), 2), (TimerFired (CheckBuffer ''BTCUSDT''), 3)]"

definition events_without_poll :: "(event \<times> int) list" where
  "events_without_poll =
     [(WsMessage (DepthUpdateMsg update_16_17), 2),
      (SnapshotResolved first_fetch [] snapshot_500, 3),
      (TimerFired (RetryInit ''BTCUSDT''), 4)]"

definition snapshot_501 :: snapshot where
  "snapshot_501 = \<lparr>snap_lastUpdateId = 501, snap_bids = [(100, 1)], snap_asks = [(101, 3)]\<rparr>"

definition kucoin_update_30_31 :: KucoinLevel2Update where
  "kucoin_update_30_31 =
     \<lparr>kc_topic = ''/market/level2:BTC-USDT'', kc_sequenceStart = 30, kc_sequenceEnd = 31,
      kc_asks = [], kc_bids = [(100, 0)]\<rparr>"

section \<open>Properties\<close>

subsection \<open>Ladders and sorting\<close>










lemma map_price_entries: "map price (entries m) = map fst (DAList.impl_of m)"
  by (simp add: entries_def case_prod_beta)

lemma distinct_prices_entries: "distinct (map price (entries m))"
  by (simp add: map_price_entries)

lemma sortDescending_strict:
  "distinct (map price xs) \<Longrightarrow> sorted_wrt (\<lambda>x y. price x > price y) (sortDescending xs)"
proof -
  assume d: "distinct (map price xs)"
  let ?ys = "sort_key (\<lambda>x. - price x) xs"
  have "sorted (map (\<lambda>x. - price x) ?ys)" by (rule sorted_sort_key)
  moreover have "distinct (map (\<lambda>x. - price x) ?ys)"
  proof -
    have "distinct (map price ?ys)"
      using d by (metis distinct_map distinct_sort set_sort)
    then have "distinct (map uminus (map price ?ys))"
      by (simp add: distinct_map inj_on_def)
    then show ?thesis by (simp add: comp_def)
  qed
  ultimately have "sorted_wrt (<) (map (\<lambda>x. - price x) ?ys)"
    by (simp add: strict_sorted_iff)
  then show ?thesis
    by (simp add: sorted_wrt_map sortDescending_def)
qed

lemma sortAscending_strict:
  "distinct (map price xs) \<Longrightarrow> sorted_wrt (\<lambda>x y. price x < price y) (sortAscending xs)"
proof -
  assume d: "distinct (map price xs)"
  let ?ys = "sort_key price xs"
  have "sorted (map price ?ys)" by (rule sorted_sort_key)
  moreover have "distinct (map price ?ys)"
    using d by (metis distinct_map distinct_sort set_sort)
  ultimately have "sorted_wrt (<) (map price ?ys)"
    by (simp add: strict_sorted_iff)
  then show ?thesis
    by (simp add: sorted_wrt_map sortAscending_def)
qed

lemma orderBooks_updatePricesOrderBookWith [simp]:
  "orderBooks (updatePricesOrderBookWith f st t now) = orderBooks st"
  by (simp add: updatePricesOrderBookWith_def Let_def split: option.splits)

lemma orderBooks_checkBuffer [simp]: "orderBooks (checkBuffer st t) = orderBooks st"
  by (simp add: checkBuffer_def Let_def split: list.splits)

lemma orderBooks_initializeOrderBook [simp]:
  "orderBooks (initializeOrderBook st t) = orderBooks st"
  by (simp add: initializeOrderBook_def)

subsection \<open>Updates without a book\<close>

lemma binance_new_orderBooks: "orderBooks (binance_new ts) t = None"
  by (simp add: binance_new_def)

text \<open>
  C10. An incremental update for a ticker that has no order book (no snapshot installed
  yet, or an unknown ticker) changes nothing: Binance's \<^verbatim>\<open>applyDepthUpdate\<close> and the
  \<^verbatim>\<open>processOrderBookUpdate\<close> of OKX and of Kucoin return the connector state they
  were given, with its order books, prices map and update ids.
\<close>

theorem C10_no_book_noop:
  "(orderBooks st ticker = None \<longrightarrow> applyDepthUpdate st ticker data now = st) \<and>
   (orderBooks st (okx_instId od) = None \<longrightarrow> okx_processOrderBookUpdate st od now = st) \<and>
   ((case topicTicker (kc_topic kd) of None \<Rightarrow> True | Some t \<Rightarrow> orderBooks st t = None)
      \<longrightarrow> kucoin_processOrderBookUpdate st kd now = st)"
  by (simp add: applyDepthUpdate_def okx_processOrderBookUpdate_def
      kucoin_processOrderBookUpdate_def Let_def split: option.splits)

theorem C10_witness:
  "orderBooks (binance_new [''BTC'']) ''BTCUSDT'' = None \<and>
   applyDepthUpdate (binance_new [''BTC'']) ''BTCUSDT''
     \<lparr>du_s = ''BTCUSDT'', du_U = 1, du_u = 2, du_b = [(100, 1)], du_a = []\<rparr> 7
     = binance_new [''BTC''] \<and>
   okx_processOrderBookUpdate (binance_new [''BTC''])
     \<lparr>okx_instId = ''BTC-USDT'', okx_asks = [], okx_bids = [(100, 1)], okx_ts = 5\<rparr> 7
     = binance_new [''BTC''] \<and>
   topicTicker ''/market/level2:BTC-USDT'' = Some ''BTC-USDT'' \<and>
   kucoin_processOrderBookUpdate (binance_new [''BTC''])
     \<lparr>kc_topic = ''/market/level2:BTC-USDT'', kc_sequenceStart = 3, kc_sequenceEnd = 4,
      kc_asks = [], kc_bids = [(100, 1)]\<rparr> 7
     = binance_new [''BTC'']"
  using C10_no_book_noop [of "binance_new [''BTC'']" "''BTCUSDT''"
      "\<lparr>du_s = ''BTCUSDT'', du_U = 1, du_u = 2, du_b = [(100, 1)], du_a = []\<rparr>" 7
      "\<lparr>okx_instId = ''BTC-USDT'', okx_asks = [], okx_bids = [(100, 1)], okx_ts = 5\<rparr>"
      "\<lparr>kc_topic = ''/market/level2:BTC-USDT'', kc_sequenceStart = 3, kc_sequenceEnd = 4,
      kc_asks = [], kc_bids = [(100, 1)]\<rparr>"]
  by (simp add: binance_new_orderBooks topicTicker_def)

subsection \<open>The size invariant of the ladders\<close>


lemma books_ok_at_updatePrices:
  "books_ok_at (updatePricesOrderBookWith f st t now) t' = books_ok_at st t'"
  by (simp add: books_ok_at_def)

lemma books_ok_at_initializeOrderBook:
  "books_ok_at (initializeOrderBook st t) t' = books_ok_at st t'"
  by (simp add: books_ok_at_def)


lemma kraken_orderBooks_updatePrices [simp]:
  "k_orderBooks (kraken_updatePricesOrderBook st t now) = k_orderBooks st"
  by (simp add: kraken_updatePricesOrderBook_def Let_def split: option.splits)









lemmas ladder_eval =
  DAList.update.rep_eq DAList.delete.rep_eq DAList.empty.rep_eq DAList.lookup.rep_eq
  ladder_ok_def applyLevels_def applyLevel_def snapshotLevels_def snapshotLevel_def
  sizes_nonneg_def entries_def sortDescending_def sortAscending_def

lemmas binance_eval =
  binance_new_def initializeOrderBook_install_def installSnapshot_def finishInitialize_def
  updatePricesOrderBook_def updatePricesOrderBookWith_def applyDepthUpdate_def
  initializeOrderBook_def checkBuffer_def processDepthUpdate_def firstEventValid_def
  parseTicker_def currentDataOf_def defaultData_def orderBookDepth_def books_ok_at_def
  book_ok_def Let_def

lemmas example_inputs =
  snapshot_500_def update_498_501_def update_502_505_def update_510_520_def

lemmas handler_eval =
  run_def step_def wsOnOpen_def onSubscribe_def wsOnMessage_def onMessage_def timerFired_def
  snapshotResolved_def snapshotRejected_def wsOnClose_def close_def

lemma live_example_book:
  "orderBooks live_example ''BTCUSDT'' =
     Some \<lparr>lastUpdateId = 10, bids = DAList.update 100 2 DAList.empty,
           asks = DAList.update 101 3 DAList.empty\<rparr>"
  by (simp add: live_example_def binance_eval snapshotLevels_def snapshotLevel_def)



subsection \<open>Stale updates\<close>

lemma applyDepthUpdate_stale:
  "orderBooks st t = Some ob \<Longrightarrow> du_u d \<le> lastUpdateId ob \<Longrightarrow> applyDepthUpdate st t d now = st"
  by (simp add: applyDepthUpdate_def)

lemma backpack_applyDepthUpdate_stale:
  "orderBooks st t = Some ob \<Longrightarrow> du_u d \<le> lastUpdateId ob \<Longrightarrow>
   backpack_applyDepthUpdate st t d now = st"
  by (simp add: backpack_applyDepthUpdate_def)

lemma processDepthUpdate_stale:
  "live st (du_s d) \<Longrightarrow> orderBooks st (du_s d) = Some ob \<Longrightarrow> du_u d \<le> lastUpdateId ob \<Longrightarrow>
   processDepthUpdate st d now = st"
  by (simp add: processDepthUpdate_def live_def applyDepthUpdate_stale)

lemma applyDepthUpdate_applied_book:
  assumes "orderBooks st t = Some ob" "lastUpdateId ob < du_u d" "du_U d \<le> lastUpdateId ob + 1"
  shows "orderBooks (applyDepthUpdate st t d now) t =
           Some \<lparr>lastUpdateId = du_u d, bids = applyLevels (bids ob) (du_b d),
                 asks = applyLevels (asks ob) (du_a d)\<rparr>"
  using assms by (simp add: applyDepthUpdate_def updatePricesOrderBook_def)

lemma backpack_applyDepthUpdate_applied_book:
  assumes "orderBooks st t = Some ob" "lastUpdateId ob < du_u d"
  shows "orderBooks (backpack_applyDepthUpdate st t d now) t =
           Some \<lparr>lastUpdateId = du_u d, bids = applyLevels (bids ob) (du_b d),
                 asks = applyLevels (asks ob) (du_a d)\<rparr>"
  using assms by (simp add: backpack_applyDepthUpdate_def backpack_updatePricesOrderBook_def)

lemma applyDepthUpdate_twice:
  assumes "orderBooks st t = Some ob" "lastUpdateId ob < du_u d" "du_U d \<le> lastUpdateId ob + 1"
  shows "applyDepthUpdate (applyDepthUpdate st t d now) t d now' = applyDepthUpdate st t d now"
  by (rule applyDepthUpdate_stale [OF applyDepthUpdate_applied_book [OF assms]]) simp

lemma backpack_applyDepthUpdate_twice:
  assumes "orderBooks st t = Some ob" "lastUpdateId ob < du_u d"
  shows "backpack_applyDepthUpdate (backpack_applyDepthUpdate st t d now) t d now' =
           backpack_applyDepthUpdate st t d now"
  by (rule backpack_applyDepthUpdate_stale [OF backpack_applyDepthUpdate_applied_book [OF assms]])
    simp

lemma okx_processOrderBookUpdate_applied_book:
  assumes "live st (okx_instId od)" "orderBooks st (okx_instId od) = Some ob"
  shows "orderBooks (okx_processOrderBookUpdate st od now) (okx_instId od) =
           Some \<lparr>lastUpdateId = okx_ts od, bids = applyLevels (bids ob) (okx_bids od),
                 asks = applyLevels (asks ob) (okx_asks od)\<rparr>"
  using assms
  by (simp add: okx_processOrderBookUpdate_def okx_updatePricesOrderBook_def live_def Let_def)

lemma kucoin_processOrderBookUpdate_applied_book:
  assumes "topicTicker (kc_topic kd) = Some k" "live st k" "orderBooks st k = Some ob"
  shows "orderBooks (kucoin_processOrderBookUpdate st kd now) k =
           Some \<lparr>lastUpdateId = kc_sequenceEnd kd, bids = applyLevels (bids ob) (kc_bids kd),
                 asks = applyLevels (asks ob) (kc_asks kd)\<rparr>"
  using assms
  by (simp add: kucoin_processOrderBookUpdate_def kucoin_updatePricesOrderBook_def live_def
      Let_def)

text \<open>
  C1 (as amended). In the Binance and Backpack connectors, an incremental update whose
  final update id is at most the book's \<^verbatim>\<open>lastUpdateId\<close> leaves the whole connector
  state unchanged, also when it arrives through \<^verbatim>\<open>processDepthUpdate\<close> for a live
  ticker; so an update that has just been applied is ignored when it is applied again.
  The OKX and Kucoin connectors compare no markers: for a live book,
  \<^verbatim>\<open>processOrderBookUpdate\<close> applies the changes of every update, whatever its
  timestamp or sequence end, and makes that value the book's update id.
\<close>

theorem C1_stale_update_ignored:
  "(orderBooks st t = Some ob \<and> du_u d \<le> lastUpdateId ob \<longrightarrow>
      applyDepthUpdate st t d now = st \<and> backpack_applyDepthUpdate st t d now = st) \<and>
   (live st (du_s d) \<and> orderBooks st (du_s d) = Some ob \<and> du_u d \<le> lastUpdateId ob \<longrightarrow>
      processDepthUpdate st d now = st) \<and>
   (orderBooks st t = Some ob \<and> lastUpdateId ob < du_u e \<and> du_U e \<le> lastUpdateId ob + 1 \<longrightarrow>
      applyDepthUpdate (applyDepthUpdate st t e now) t e now' = applyDepthUpdate st t e now) \<and>
   (orderBooks st t = Some ob \<and> lastUpdateId ob < du_u e \<longrightarrow>
      backpack_applyDepthUpdate (backpack_applyDepthUpdate st t e now) t e now' =
        backpack_applyDepthUpdate st t e now) \<and>
   (live ost (okx_instId od) \<and> orderBooks ost (okx_instId od) = Some oob \<longrightarrow>
      orderBooks (okx_processOrderBookUpdate ost od now) (okx_instId od) =
        Some \<lparr>lastUpdateId = okx_ts od, bids = applyLevels (bids oob) (okx_bids od),
              asks = applyLevels (asks oob) (okx_asks od)\<rparr>) \<and>
   (topicTicker (kc_topic kd) = Some k \<and> live kst k \<and> orderBooks kst k = Some kob \<longrightarrow>
      orderBooks (kucoin_processOrderBookUpdate kst kd now) k =
        Some \<lparr>lastUpdateId = kc_sequenceEnd kd, bids = applyLevels (bids kob) (kc_bids kd),
              asks = applyLevels (asks kob) (kc_asks kd)\<rparr>)"
proof (intro conjI impI; elim conjE)
  assume "orderBooks st t = Some ob" "du_u d \<le> lastUpdateId ob"
  then show "applyDepthUpdate st t d now = st" "backpack_applyDepthUpdate st t d now = st"
    by (simp_all add: applyDepthUpdate_stale backpack_applyDepthUpdate_stale)
next
  assume "live st (du_s d)" "orderBooks st (du_s d) = Some ob" "du_u d \<le> lastUpdateId ob"
  then show "processDepthUpdate st d now = st" by (rule processDepthUpdate_stale)
next
  assume "orderBooks st t = Some ob" "lastUpdateId ob < du_u e" "du_U e \<le> lastUpdateId ob + 1"
  then show "applyDepthUpdate (applyDepthUpdate st t e now) t e now' =
             applyDepthUpdate st t e now"
    by (rule applyDepthUpdate_twice)
next
  assume "orderBooks st t = Some ob" "lastUpdateId ob < du_u e"
  then show "backpack_applyDepthUpdate (backpack_applyDepthUpdate st t e now) t e now' =
             backpack_applyDepthUpdate st t e now"
    by (rule backpack_applyDepthUpdate_twice)
next
  assume "live ost (okx_instId od)" "orderBooks ost (okx_instId od) = Some oob"
  then show "orderBooks (okx_processOrderBookUpdate ost od now) (okx_instId od) =
        Some \<lparr>lastUpdateId = okx_ts od, bids = applyLevels (bids oob) (okx_bids od),
              asks = applyLevels (asks oob) (okx_asks od)\<rparr>"
    by (rule okx_processOrderBookUpdate_applied_book)
next
  assume "topicTicker (kc_topic kd) = Some k" "live kst k" "orderBooks kst k = Some kob"
  then show "orderBooks (kucoin_processOrderBookUpdate kst kd now) k =
        Some \<lparr>lastUpdateId = kc_sequenceEnd kd, bids = applyLevels (bids kob) (kc_bids kd),
              asks = applyLevels (asks kob) (kc_asks kd)\<rparr>"
    by (rule kucoin_processOrderBookUpdate_applied_book)
qed

lemma live_example_flag: "isInitializing live_example ''BTCUSDT'' = Some False"
  by (simp add: live_example_def binance_eval)

lemma live_example_live: "live live_example ''BTCUSDT''"
  by (simp add: live_def live_example_flag live_example_book)

lemma okx_live_example_book:
  "orderBooks okx_live_example ''BTC-USDT'' =
     Some \<lparr>lastUpdateId = 10, bids = DAList.update 100 2 DAList.empty,
           asks = DAList.update 101 3 DAList.empty\<rparr>"
  by (simp add: okx_live_example_def okx_initializeOrderBook_install_def okx_new_def
      okx_updatePricesOrderBook_def installSnapshot_def snapshotLevels_def snapshotLevel_def
      Let_def)

lemma okx_live_example_flag: "isInitializing okx_live_example ''BTC-USDT'' = Some False"
  by (simp add: okx_live_example_def okx_initializeOrderBook_install_def okx_new_def
      okx_updatePricesOrderBook_def updatePricesOrderBookWith_def installSnapshot_def Let_def)

lemma delete_only_level: "DAList.delete p (DAList.update p q DAList.empty) = DAList.empty"
  by (simp add: alist_eq_iff DAList.delete.rep_eq DAList.update.rep_eq DAList.empty.rep_eq)

lemma kucoin_live_example_book:
  "orderBooks kucoin_live_example ''BTC-USDT'' =
     Some \<lparr>lastUpdateId = 10, bids = DAList.update 100 2 DAList.empty,
           asks = DAList.update 101 3 DAList.empty\<rparr>"
  by (simp add: kucoin_live_example_def kucoin_initializeOrderBook_install_def kucoin_new_def
      kucoin_updatePricesOrderBook_def installSnapshot_def snapshotLevels_def snapshotLevel_def
      Let_def)

lemma kucoin_live_example_flag: "isInitializing kucoin_live_example ''BTC-USDT'' = Some False"
  by (simp add: kucoin_live_example_def kucoin_initializeOrderBook_install_def kucoin_new_def
      kucoin_updatePricesOrderBook_def updatePricesOrderBookWith_def installSnapshot_def Let_def)

lemma topicTicker_level2: "topicTicker ''/market/level2:BTC-USDT'' = Some ''BTC-USDT''"
  by (simp add: topicTicker_def)

lemma okx_live_example_live: "live okx_live_example ''BTC-USDT''"
  by (simp add: live_def okx_live_example_book okx_live_example_flag)

lemma kucoin_live_example_live: "live kucoin_live_example ''BTC-USDT''"
  by (simp add: live_def kucoin_live_example_book kucoin_live_example_flag)

theorem C1_witness:
  "orderBooks live_example ''BTCUSDT'' =
     Some \<lparr>lastUpdateId = 10, bids = DAList.update 100 2 DAList.empty,
           asks = DAList.update 101 3 DAList.empty\<rparr> \<and>
   live live_example ''BTCUSDT'' \<and>
   applyDepthUpdate live_example ''BTCUSDT''
     \<lparr>du_s = ''BTCUSDT'', du_U = 8, du_u = 10, du_b = [(100, 0)], du_a = []\<rparr> 1 = live_example \<and>
   backpack_applyDepthUpdate live_example ''BTCUSDT''
     \<lparr>du_s = ''BTCUSDT'', du_U = 8, du_u = 10, du_b = [(100, 0)], du_a = []\<rparr> 1 = live_example \<and>
   processDepthUpdate live_example
     \<lparr>du_s = ''BTCUSDT'', du_U = 8, du_u = 10, du_b = [(100, 0)], du_a = []\<rparr> 1 = live_example \<and>
   applyDepthUpdate
     (applyDepthUpdate live_example ''BTCUSDT''
        \<lparr>du_s = ''BTCUSDT'', du_U = 11, du_u = 12, du_b = [(100, 0)], du_a = []\<rparr> 1)
     ''BTCUSDT'' \<lparr>du_s = ''BTCUSDT'', du_U = 11, du_u = 12, du_b = [(100, 0)], du_a = []\<rparr> 2 =
   applyDepthUpdate live_example ''BTCUSDT''
     \<lparr>du_s = ''BTCUSDT'', du_U = 11, du_u = 12, du_b = [(100, 0)], du_a = []\<rparr> 1 \<and>
   backpack_applyDepthUpdate
     (backpack_applyDepthUpdate live_example ''BTCUSDT''
        \<lparr>du_s = ''BTCUSDT'', du_U = 11, du_u = 12, du_b = [(100, 0)], du_a = []\<rparr> 1)
     ''BTCUSDT'' \<lparr>du_s = ''BTCUSDT'', du_U = 11, du_u = 12, du_b = [(100, 0)], du_a = []\<rparr> 2 =
   backpack_applyDepthUpdate live_example ''BTCUSDT''
     \<lparr>du_s = ''BTCUSDT'', du_U = 11, du_u = 12, du_b = [(100, 0)], du_a = []\<rparr> 1 \<and>
   live okx_live_example ''BTC-USDT'' \<and>
   orderBooks
     (okx_processOrderBookUpdate okx_live_example
        \<lparr>okx_instId = ''BTC-USDT'', okx_asks = [], okx_bids = [(100, 0)], okx_ts = 7\<rparr> 1)
     ''BTC-USDT'' =
     Some \<lparr>lastUpdateId = 7, bids = DAList.empty, asks = DAList.update 101 3 DAList.empty\<rparr> \<and>
   topicTicker ''/market/level2:BTC-USDT'' = Some ''BTC-USDT'' \<and>
   live kucoin_live_example ''BTC-USDT'' \<and>
   orderBooks
     (kucoin_processOrderBookUpdate kucoin_live_example
        \<lparr>kc_topic = ''/market/level2:BTC-USDT'', kc_sequenceStart = 6, kc_sequenceEnd = 7,
         kc_asks = [], kc_bids = [(100, 0)]\<rparr> 1)
     ''BTC-USDT'' =
     Some \<lparr>lastUpdateId = 7, bids = DAList.empty, asks = DAList.update 101 3 DAList.empty\<rparr>"
  using C1_stale_update_ignored [where st = live_example and t = "''BTCUSDT''" and now = 1
      and now' = 2
      and d = "\<lparr>du_s = ''BTCUSDT'', du_U = 8, du_u = 10, du_b = [(100, 0)], du_a = []\<rparr>"
      and e = "\<lparr>du_s = ''BTCUSDT'', du_U = 11, du_u = 12, du_b = [(100, 0)], du_a = []\<rparr>"
      and ob = "\<lparr>lastUpdateId = 10, bids = DAList.update 100 2 DAList.empty,
           asks = DAList.update 101 3 DAList.empty\<rparr>"
      and ost = okx_live_example
      and od = "\<lparr>okx_instId = ''BTC-USDT'', okx_asks = [], okx_bids = [(100, 0)], okx_ts = 7\<rparr>"
      and oob = "\<lparr>lastUpdateId = 10, bids = DAList.update 100 2 DAList.empty,
           asks = DAList.update 101 3 DAList.empty\<rparr>"
      and kst = kucoin_live_example and k = "''BTC-USDT''"
      and kd = "\<lparr>kc_topic = ''/market/level2:BTC-USDT'', kc_sequenceStart = 6,
         kc_sequenceEnd = 7, kc_asks = [], kc_bids = [(100, 0)]\<rparr>"
      and kob = "\<lparr>lastUpdateId = 10, bids = DAList.update 100 2 DAList.empty,
           asks = DAList.update 101 3 DAList.empty\<rparr>"]
  by (simp add: live_example_book live_example_live okx_live_example_book okx_live_example_live
      kucoin_live_example_book kucoin_live_example_live topicTicker_level2
      applyLevels_def applyLevel_def delete_only_level)

text \<open>
  OKX has no staleness test: a live book with update id 10 takes an update stamped 5,
  loses its bid at 100 and moves its update id back to 5.
\<close>

theorem C1_counterexample:
  "live okx_live_example ''BTC-USDT'' \<and>
   orderBooks okx_live_example ''BTC-USDT'' =
     Some \<lparr>lastUpdateId = 10, bids = DAList.update 100 2 DAList.empty,
           asks = DAList.update 101 3 DAList.empty\<rparr> \<and>
   orderBooks
     (okx_processOrderBookUpdate okx_live_example
        \<lparr>okx_instId = ''BTC-USDT'', okx_asks = [], okx_bids = [(100, 0)], okx_ts = 5\<rparr> 1)
     ''BTC-USDT'' =
     Some \<lparr>lastUpdateId = 5, bids = DAList.empty, asks = DAList.update 101 3 DAList.empty\<rparr>"
  by (simp add: live_def okx_live_example_book okx_live_example_flag
      okx_processOrderBookUpdate_def okx_updatePricesOrderBook_def applyLevels_def
      applyLevel_def delete_only_level Let_def)

subsection \<open>Gaps\<close>

lemma checkBuffer_fields [simp]:
  "isInitializing (checkBuffer st k) = isInitializing st"
  "prices (checkBuffer st k) = prices st"
  "depthUpdateBuffers (checkBuffer st k) = depthUpdateBuffers st"
  "isClosing (checkBuffer st k) = isClosing st"
  by (simp_all add: checkBuffer_def Let_def split: list.splits)

lemma initializeOrderBook_fields [simp]:
  "isInitializing (initializeOrderBook st k) = (isInitializing st)(k \<mapsto> True)"
  "prices (initializeOrderBook st k) = prices st"
  "depthUpdateBuffers (initializeOrderBook st k) = (depthUpdateBuffers st)(k \<mapsto> [])"
  "isClosing (initializeOrderBook st k) = isClosing st"
  "timers (initializeOrderBook st k) = timers st @ [CheckBuffer k]"
  "fetching (initializeOrderBook st k) = fetching st"
  "effects (initializeOrderBook st k) = effects st"
  by (simp_all add: initializeOrderBook_def checkBuffer_def)

lemma updatePricesOrderBookWith_fields [simp]:
  "isInitializing (updatePricesOrderBookWith f st k now) = isInitializing st"
  "depthUpdateBuffers (updatePricesOrderBookWith f st k now) = depthUpdateBuffers st"
  "isClosing (updatePricesOrderBookWith f st k now) = isClosing st"
  "timers (updatePricesOrderBookWith f st k now) = timers st"
  "fetching (updatePricesOrderBookWith f st k now) = fetching st"
  "effects (updatePricesOrderBookWith f st k now) = effects st"
  by (simp_all add: updatePricesOrderBookWith_def Let_def split: option.splits)

lemma applyDepthUpdate_gap:
  assumes "orderBooks st t = Some ob" "lastUpdateId ob + 1 < du_U d" "lastUpdateId ob < du_u d"
  shows "applyDepthUpdate st t d now =
           initializeOrderBook (st\<lparr>isInitializing := (isInitializing st)(t \<mapsto> True)\<rparr>) t"
  using assms by (simp add: applyDepthUpdate_def)

text \<open>While a ticker is initializing, no handler other than the arrival of a snapshot
  touches its book or clears its flag.\<close>

lemma applyDepthUpdate_other:
  assumes "k \<noteq> t"
  shows "orderBooks (applyDepthUpdate st k d now) t = orderBooks st t"
    and "isInitializing st t = Some True \<Longrightarrow>
         isInitializing (applyDepthUpdate st k d now) t = Some True"
  using assms
  by (simp_all add: applyDepthUpdate_def updatePricesOrderBook_def split: option.splits)

lemma processDepthUpdate_waiting:
  assumes "isInitializing st t = Some True"
  shows "orderBooks (processDepthUpdate st d now) t = orderBooks st t"
    and "isInitializing (processDepthUpdate st d now) t = Some True"
proof -
  show "orderBooks (processDepthUpdate st d now) t = orderBooks st t"
  proof (cases "isInitializing st (du_s d) = Some True")
    case True
    then show ?thesis by (simp add: processDepthUpdate_def Let_def)
  next
    case False
    with assms have "du_s d \<noteq> t" by auto
    with False show ?thesis by (simp add: processDepthUpdate_def Let_def applyDepthUpdate_other)
  qed
  show "isInitializing (processDepthUpdate st d now) t = Some True"
  proof (cases "isInitializing st (du_s d) = Some True")
    case True
    then show ?thesis using assms by (simp add: processDepthUpdate_def Let_def)
  next
    case False
    with assms have "du_s d \<noteq> t" by auto
    with False assms show ?thesis by (simp add: processDepthUpdate_def Let_def applyDepthUpdate_other)
  qed
qed

lemma wsOnMessage_waiting:
  assumes "isInitializing st t = Some True"
  shows "orderBooks (wsOnMessage st msg now) t = orderBooks st t"
    and "isInitializing (wsOnMessage st msg now) t = Some True"
  using assms
  by (cases msg; simp add: wsOnMessage_def onMessage_def Let_def processDepthUpdate_waiting)+

lemma foldl_initializeOrderBook_waiting:
  "orderBooks (foldl initializeOrderBook st ks) = orderBooks st"
  "isInitializing st t = Some True \<Longrightarrow>
   isInitializing (foldl initializeOrderBook st ks) t = Some True"
  by (induction ks arbitrary: st) simp_all

lemma wsOnOpen_waiting:
  assumes "isInitializing st t = Some True"
  shows "orderBooks (wsOnOpen st) t = orderBooks st t"
    and "isInitializing (wsOnOpen st) t = Some True"
  using assms
  by (simp_all add: wsOnOpen_def onSubscribe_def Let_def foldl_initializeOrderBook_waiting)

lemma timerFired_waiting:
  assumes "isInitializing st t = Some True"
  shows "orderBooks (timerFired st tm) t = orderBooks st t"
    and "isInitializing (timerFired st tm) t = Some True"
  using assms by (cases tm; simp add: timerFired_def Let_def)+

lemma step_waiting:
  assumes "isInitializing st t = Some True" "\<not> isSnapshotResolved (fst e)"
  shows "orderBooks (step st e) t = orderBooks st t"
    and "isInitializing (step st e) t = Some True"
  using assms
  by (cases e; cases "fst e";
      simp add: step_def isSnapshotResolved_def wsOnMessage_waiting wsOnOpen_waiting
        timerFired_waiting wsOnClose_def snapshotRejected_def close_def)+

lemma run_waiting:
  assumes "isInitializing st t = Some True" "list_all (\<lambda>e. \<not> isSnapshotResolved (fst e)) es"
  shows "orderBooks (run st es) t = orderBooks st t \<and> isInitializing (run st es) t = Some True"
  using assms unfolding run_def
proof (induction es arbitrary: st)
  case Nil
  then show ?case by simp
next
  case (Cons e es)
  then have "isInitializing (step st e) t = Some True" "orderBooks (step st e) t = orderBooks st t"
    by (simp_all add: step_waiting)
  with Cons show ?case by simp
qed


lemma processDepthUpdate_live:
  "live st (du_s d) \<Longrightarrow> processDepthUpdate st d now = applyDepthUpdate st (du_s d) d now"
  by (simp add: processDepthUpdate_def live_def)

lemma applyDepthUpdate_requests:
  "fetching (applyDepthUpdate st k d now) = fetching st"
  "effects (applyDepthUpdate st k d now) = effects st"
  by (simp_all add: applyDepthUpdate_def updatePricesOrderBook_def split: option.splits)

lemma processDepthUpdate_requests:
  "fetching (processDepthUpdate st d now) = fetching st"
  by (simp add: processDepthUpdate_def Let_def applyDepthUpdate_requests)

lemma foldl_applyDepthUpdate_other:
  assumes "k \<noteq> t"
  shows "orderBooks (foldl (\<lambda>s ev. applyDepthUpdate s k ev now) st evs) t = orderBooks st t"
    and "isInitializing st t = Some True \<Longrightarrow>
         isInitializing (foldl (\<lambda>s ev. applyDepthUpdate s k ev now) st evs) t = Some True"
    and "fetching (foldl (\<lambda>s ev. applyDepthUpdate s k ev now) st evs) = fetching st"
  using assms
  by (induction evs arbitrary: st) (simp_all add: applyDepthUpdate_other applyDepthUpdate_requests)

lemma install_other:
  assumes "k \<noteq> t"
  shows "orderBooks (initializeOrderBook_install st k buffer snap now) t = orderBooks st t"
    and "isInitializing st t = Some True \<Longrightarrow>
         isInitializing (initializeOrderBook_install st k buffer snap now) t = Some True"
    and "fetching (initializeOrderBook_install st k buffer snap now) = fetching st"
proof -
  let ?s1 = "installSnapshot st k snap"
  have s1: "orderBooks ?s1 t = orderBooks st t" "isInitializing ?s1 = isInitializing st"
    "fetching ?s1 = fetching st"
    using assms by (simp_all add: installSnapshot_def)
  have fin: "\<And>s. fetching (finishInitialize s k now) = fetching s"
    "\<And>s. orderBooks (finishInitialize s k now) = orderBooks s"
    "\<And>s. isInitializing (finishInitialize s k now) = (isInitializing s)(k \<mapsto> False)"
    by (simp_all add: finishInitialize_def Let_def updatePricesOrderBook_def)
  show "orderBooks (initializeOrderBook_install st k buffer snap now) t = orderBooks st t"
    using assms s1 fin
    by (simp add: initializeOrderBook_install_def Let_def foldl_applyDepthUpdate_other
        split: list.splits)
  show "fetching (initializeOrderBook_install st k buffer snap now) = fetching st"
    using assms s1 fin
    by (simp add: initializeOrderBook_install_def Let_def foldl_applyDepthUpdate_other
        split: list.splits)
  show "isInitializing (initializeOrderBook_install st k buffer snap now) t = Some True"
    if "isInitializing st t = Some True"
    using assms s1 fin that
    by (simp add: initializeOrderBook_install_def Let_def foldl_applyDepthUpdate_other
        split: list.splits)
qed

text \<open>While a ticker is initializing and no snapshot request for it is in flight, only
  the firing of one of its polls can bring one about; until then its book and its flag
  stay, whatever else happens.\<close>

lemma step_no_request:
  assumes "isInitializing st t = Some True" "noRequestFor st t" "\<not> isPollFor t (fst e)"
  shows "orderBooks (step st e) t = orderBooks st t"
    and "isInitializing (step st e) t = Some True"
    and "noRequestFor (step st e) t"
proof -
  obtain ev now where e: "e = (ev, now)" by (cases e)
  have all: "orderBooks (step st e) t = orderBooks st t \<and>
             isInitializing (step st e) t = Some True \<and> noRequestFor (step st e) t"
  proof (cases ev)
    case (WsMessage msg)
    have "fetching (wsOnMessage st msg now) = fetching st"
      by (cases msg)
        (simp_all add: wsOnMessage_def onMessage_def Let_def processDepthUpdate_requests)
    then show ?thesis
      using assms(1,2) by (simp add: e WsMessage step_def wsOnMessage_waiting noRequestFor_def)
  next
    case WsOpen
    have "fetching (foldl initializeOrderBook s ks) = fetching s" for s ks
      by (induction ks arbitrary: s) simp_all
    then have "fetching (wsOnOpen st) = fetching st"
      by (simp add: wsOnOpen_def onSubscribe_def Let_def)
    then show ?thesis
      using assms(1,2) by (simp add: e WsOpen step_def wsOnOpen_waiting noRequestFor_def)
  next
    case (WsClose code)
    then show ?thesis
      using assms(1,2) by (simp add: e step_def wsOnClose_def noRequestFor_def)
  next
    case (TimerFired tm)
    have "noRequestFor (timerFired st tm) t"
    proof (cases tm)
      case (CheckBuffer k)
      with assms(3) have "k \<noteq> t" by (simp add: e TimerFired isPollFor_def)
      then show ?thesis
        using assms(2)
        by (simp add: CheckBuffer timerFired_def checkBuffer_def Let_def noRequestFor_def
            split: list.splits)
    next
      case (RetryInit k)
      then show ?thesis
        using assms(2) by (simp add: timerFired_def Let_def noRequestFor_def)
    qed
    then show ?thesis
      using assms(1) by (simp add: e TimerFired step_def timerFired_waiting)
  next
    case (SnapshotResolved fw buffer snap)
    show ?thesis
    proof (cases "fw \<in> set (fetching st)")
      case False
      then show ?thesis
        using assms(1,2) by (simp add: e SnapshotResolved step_def snapshotResolved_def)
    next
      case True
      with assms(2) have k: "fw_ticker fw \<noteq> t"
        by (auto simp: noRequestFor_def list_all_iff)
      let ?s1 = "st\<lparr>fetching := remove1 fw (fetching st)\<rparr>"
      have rest: "list_all (\<lambda>fw. fw_ticker fw \<noteq> t) (remove1 fw (fetching st))"
        using assms(2) by (auto simp: noRequestFor_def list_all_iff dest: notin_set_remove1)
      have s1: "isInitializing ?s1 t = Some True" using assms(1) by simp
      show ?thesis
        using True k rest assms(1) install_other [OF k, of ?s1 buffer snap now] s1
        by (simp add: e SnapshotResolved step_def snapshotResolved_def Let_def noRequestFor_def)
    qed
  next
    case (SnapshotRejected fw)
    have "list_all (\<lambda>fw. fw_ticker fw \<noteq> t) (remove1 fw (fetching st))"
      using assms(2) by (auto simp: noRequestFor_def list_all_iff dest: notin_set_remove1)
    then show ?thesis
      using assms(1,2) by (simp add: e SnapshotRejected step_def snapshotRejected_def noRequestFor_def)
  next
    case CloseCalled
    then show ?thesis
      using assms(1,2) by (simp add: e step_def close_def noRequestFor_def)
  qed
  from all show "orderBooks (step st e) t = orderBooks st t"
    and "isInitializing (step st e) t = Some True"
    and "noRequestFor (step st e) t"
    by simp_all
qed

lemma run_no_request:
  assumes "isInitializing st t = Some True" "noRequestFor st t"
    "list_all (\<lambda>e. \<not> isPollFor t (fst e)) es"
  shows "orderBooks (run st es) t = orderBooks st t \<and> isInitializing (run st es) t = Some True \<and>
         noRequestFor (run st es) t"
  using assms unfolding run_def
proof (induction es arbitrary: st)
  case Nil
  then show ?case by simp
next
  case (Cons e es)
  then have "isInitializing (step st e) t = Some True" "noRequestFor (step st e) t"
    "orderBooks (step st e) t = orderBooks st t"
    by (simp_all add: step_no_request)
  with Cons show ?case by simp
qed

lemma kucoin_processOrderBookUpdate_fields:
  "isInitializing (kucoin_processOrderBookUpdate st kd now) = isInitializing st"
  "timers (kucoin_processOrderBookUpdate st kd now) = timers st"
  by (simp_all add: kucoin_processOrderBookUpdate_def kucoin_updatePricesOrderBook_def Let_def
      split: option.splits)

lemma gap_then_pending_snapshot:
  assumes "orderBooks st t = Some ob" "lastUpdateId ob + 1 < du_U d" "lastUpdateId ob < du_u d"
    and "fw \<in> set (fetching st)" "fw_ticker fw = t"
    and "fw_second fw \<or> fw_firstEventU fw \<le> snap_lastUpdateId snap"
    and "filter (\<lambda>ev. snap_lastUpdateId snap < du_u ev) buffer = []"
  shows "orderBooks (snapshotResolved (applyDepthUpdate st t d now) fw buffer snap now') t =
           Some \<lparr>lastUpdateId = snap_lastUpdateId snap, bids = snapshotLevels (snap_bids snap),
                 asks = snapshotLevels (snap_asks snap)\<rparr>"
    and "isInitializing (snapshotResolved (applyDepthUpdate st t d now) fw buffer snap now') t =
           Some False"
proof -
  let ?st' = "applyDepthUpdate st t d now"
  have f: "fetching ?st' = fetching st" by (rule applyDepthUpdate_requests)
  have eq: "snapshotResolved ?st' fw buffer snap now' =
      finishInitialize
        (installSnapshot (?st'\<lparr>fetching := remove1 fw (fetching ?st')\<rparr>) t snap) t now'"
    using assms(4-7)
    by (auto simp: snapshotResolved_def Let_def f initializeOrderBook_install_def)
  show "orderBooks (snapshotResolved ?st' fw buffer snap now') t =
           Some \<lparr>lastUpdateId = snap_lastUpdateId snap, bids = snapshotLevels (snap_bids snap),
                 asks = snapshotLevels (snap_asks snap)\<rparr>"
    by (simp add: eq finishInitialize_def Let_def updatePricesOrderBook_def installSnapshot_def)
  show "isInitializing (snapshotResolved ?st' fw buffer snap now') t = Some False"
    by (simp add: eq finishInitialize_def Let_def)
qed

text \<open>
  C2 (as amended). For a Binance order book, an incremental update that ends after the
  book's \<^verbatim>\<open>lastUpdateId\<close> and starts beyond \<^verbatim>\<open>lastUpdateId + 1\<close> is a gap: the
  update is not applied (order books and prices stay as they were), the ticker is marked
  initializing, its buffer is emptied and \<^verbatim>\<open>initializeOrderBook\<close> starts polling;
  no snapshot is requested in that step. From then on, of the events that reach the
  connector from its socket, its timers and its snapshot requests, and of \<^verbatim>\<open>close()\<close>,
  only the arrival of a snapshot changes that book or clears the mark
  (\<^verbatim>\<open>changeTickers\<close> is not part of this statement). If no snapshot request for the
  ticker is in flight when the gap is detected, then whatever arrives, snapshots
  included, the book and the mark stay and no request for the ticker is in flight until
  a poll of the ticker fires. A request that is in flight when the gap is detected is
  not withdrawn: when it brings a snapshot that its call accepts, and none of the
  updates buffered by that call ends after the snapshot, the snapshot becomes the book
  and the ticker leaves the initializing state. For a live ticker
  \<^verbatim>\<open>processDepthUpdate\<close> is \<^verbatim>\<open>applyDepthUpdate\<close>. Kucoin has no gap test: for
  a live book \<^verbatim>\<open>processOrderBookUpdate\<close> applies every update, whatever its
  sequence start, and neither marks the ticker nor arms a timer.
\<close>

theorem C2_gap_restarts_initialization:
  "(orderBooks st t = Some ob \<and> lastUpdateId ob + 1 < du_U d \<and> lastUpdateId ob < du_u d \<and>
    list_all (\<lambda>e. \<not> isSnapshotResolved (fst e)) es \<longrightarrow>
      orderBooks (applyDepthUpdate st t d now) = orderBooks st \<and>
      prices (applyDepthUpdate st t d now) = prices st \<and>
      isInitializing (applyDepthUpdate st t d now) t = Some True \<and>
      depthUpdateBuffers (applyDepthUpdate st t d now) t = Some [] \<and>
      timers (applyDepthUpdate st t d now) = timers st @ [CheckBuffer t] \<and>
      fetching (applyDepthUpdate st t d now) = fetching st \<and>
      effects (applyDepthUpdate st t d now) = effects st \<and>
      orderBooks (run (applyDepthUpdate st t d now) es) t = Some ob \<and>
      isInitializing (run (applyDepthUpdate st t d now) es) t = Some True) \<and>
   (orderBooks st t = Some ob \<and> lastUpdateId ob + 1 < du_U d \<and> lastUpdateId ob < du_u d \<and>
    noRequestFor st t \<and> list_all (\<lambda>e. \<not> isPollFor t (fst e)) es' \<longrightarrow>
      orderBooks (run (applyDepthUpdate st t d now) es') t = Some ob \<and>
      isInitializing (run (applyDepthUpdate st t d now) es') t = Some True \<and>
      noRequestFor (run (applyDepthUpdate st t d now) es') t) \<and>
   (orderBooks st' t = Some ob' \<and> lastUpdateId ob' + 1 < du_U d' \<and> lastUpdateId ob' < du_u d' \<and>
    fw \<in> set (fetching st') \<and> fw_ticker fw = t \<and>
    (fw_second fw \<or> fw_firstEventU fw \<le> snap_lastUpdateId snap) \<and>
    filter (\<lambda>ev. snap_lastUpdateId snap < du_u ev) buffer = [] \<longrightarrow>
      orderBooks (snapshotResolved (applyDepthUpdate st' t d' now') fw buffer snap now'') t =
        Some \<lparr>lastUpdateId = snap_lastUpdateId snap, bids = snapshotLevels (snap_bids snap),
              asks = snapshotLevels (snap_asks snap)\<rparr> \<and>
      isInitializing (snapshotResolved (applyDepthUpdate st' t d' now') fw buffer snap now'') t =
        Some False) \<and>
   (live st (du_s d) \<longrightarrow> processDepthUpdate st d now = applyDepthUpdate st (du_s d) d now) \<and>
   (topicTicker (kc_topic kd) = Some k \<and> live kst k \<and> orderBooks kst k = Some kob \<longrightarrow>
      orderBooks (kucoin_processOrderBookUpdate kst kd now) k =
        Some \<lparr>lastUpdateId = kc_sequenceEnd kd, bids = applyLevels (bids kob) (kc_bids kd),
              asks = applyLevels (asks kob) (kc_asks kd)\<rparr> \<and>
      isInitializing (kucoin_processOrderBookUpdate kst kd now) = isInitializing kst \<and>
      timers (kucoin_processOrderBookUpdate kst kd now) = timers kst)"
proof (intro conjI impI; (elim conjE)?)
  assume a: "orderBooks st t = Some ob" "lastUpdateId ob + 1 < du_U d" "lastUpdateId ob < du_u d"
    and es: "list_all (\<lambda>e. \<not> isSnapshotResolved (fst e)) es"
  let ?st' = "applyDepthUpdate st t d now"
  have eq: "?st' = initializeOrderBook (st\<lparr>isInitializing := (isInitializing st)(t \<mapsto> True)\<rparr>) t"
    using a by (rule applyDepthUpdate_gap)
  show "orderBooks ?st' = orderBooks st" "prices ?st' = prices st"
    "depthUpdateBuffers ?st' t = Some []" "timers ?st' = timers st @ [CheckBuffer t]"
    "fetching ?st' = fetching st" "effects ?st' = effects st"
    by (simp_all add: eq)
  show flag: "isInitializing ?st' t = Some True" by (simp add: eq)
  have book: "orderBooks ?st' t = Some ob" using a by (simp add: eq)
  from run_waiting [OF flag es] book
  show "orderBooks (run ?st' es) t = Some ob" "isInitializing (run ?st' es) t = Some True"
    by simp_all
next
  assume a: "orderBooks st t = Some ob" "lastUpdateId ob + 1 < du_U d" "lastUpdateId ob < du_u d"
    and n: "noRequestFor st t" and es: "list_all (\<lambda>e. \<not> isPollFor t (fst e)) es'"
  let ?st' = "applyDepthUpdate st t d now"
  have eq: "?st' = initializeOrderBook (st\<lparr>isInitializing := (isInitializing st)(t \<mapsto> True)\<rparr>) t"
    using a by (rule applyDepthUpdate_gap)
  have flag: "isInitializing ?st' t = Some True" by (simp add: eq)
  have book: "orderBooks ?st' t = Some ob" using a by (simp add: eq)
  have n': "noRequestFor ?st' t"
    using n by (simp add: noRequestFor_def applyDepthUpdate_requests)
  from run_no_request [OF flag n' es] book
  show "orderBooks (run ?st' es') t = Some ob" "isInitializing (run ?st' es') t = Some True"
    "noRequestFor (run ?st' es') t"
    by simp_all
next
  assume a: "orderBooks st' t = Some ob'" "lastUpdateId ob' + 1 < du_U d'"
    "lastUpdateId ob' < du_u d'" "fw \<in> set (fetching st')" "fw_ticker fw = t"
    "fw_second fw \<or> fw_firstEventU fw \<le> snap_lastUpdateId snap"
    "filter (\<lambda>ev. snap_lastUpdateId snap < du_u ev) buffer = []"
  show "orderBooks (snapshotResolved (applyDepthUpdate st' t d' now') fw buffer snap now'') t =
        Some \<lparr>lastUpdateId = snap_lastUpdateId snap, bids = snapshotLevels (snap_bids snap),
              asks = snapshotLevels (snap_asks snap)\<rparr>"
    "isInitializing (snapshotResolved (applyDepthUpdate st' t d' now') fw buffer snap now'') t =
        Some False"
    by (rule gap_then_pending_snapshot [OF a])+
next
  assume "live st (du_s d)"
  then show "processDepthUpdate st d now = applyDepthUpdate st (du_s d) d now"
    by (rule processDepthUpdate_live)
next
  assume "topicTicker (kc_topic kd) = Some k" "live kst k" "orderBooks kst k = Some kob"
  then show "orderBooks (kucoin_processOrderBookUpdate kst kd now) k =
        Some \<lparr>lastUpdateId = kc_sequenceEnd kd, bids = applyLevels (bids kob) (kc_bids kd),
              asks = applyLevels (asks kob) (kc_asks kd)\<rparr>"
    by (rule kucoin_processOrderBookUpdate_applied_book)
next
  show "isInitializing (kucoin_processOrderBookUpdate kst kd now) = isInitializing kst"
    "timers (kucoin_processOrderBookUpdate kst kd now) = timers kst"
    by (rule kucoin_processOrderBookUpdate_fields)+
qed

lemma live_example_timers: "timers live_example = []"
  by (simp add: live_example_def binance_eval)

lemma kucoin_live_example_timers: "timers kucoin_live_example = []"
  by (simp add: kucoin_live_example_def kucoin_initializeOrderBook_install_def kucoin_new_def
      kucoin_updatePricesOrderBook_def installSnapshot_def Let_def)

lemma live_example_requests: "fetching live_example = []"
  by (simp add: live_example_def binance_eval)

lemma double_start_example_fields:
  "orderBooks double_start_example ''BTCUSDT'' =
     Some \<lparr>lastUpdateId = 505, bids = DAList.update 99 4 DAList.empty, asks = DAList.empty\<rparr>"
  "isInitializing double_start_example ''BTCUSDT'' = Some False"
  "fetching double_start_example = [first_fetch]"
  "effects double_start_example =
     [Send ''SUBSCRIBE'', Reconnect, Send ''SUBSCRIBE'', FetchSnapshot ''BTCUSDT'',
      FetchSnapshot ''BTCUSDT'']"
  by (simp_all add: double_start_example_def double_start_events_def first_fetch_def
      handler_eval binance_eval example_inputs alist_eq_iff ladder_eval)

theorem C2_witness:
  "orderBooks live_example ''BTCUSDT'' =
     Some \<lparr>lastUpdateId = 10, bids = DAList.update 100 2 DAList.empty,
           asks = DAList.update 101 3 DAList.empty\<rparr> \<and>
   (10::int) + 1 < du_U update_12_15 \<and> 10 < du_u update_12_15 \<and>
   list_all (\<lambda>e. \<not> isSnapshotResolved (fst e)) events_without_snapshot \<and>
   orderBooks (applyDepthUpdate live_example ''BTCUSDT'' update_12_15 1) =
     orderBooks live_example \<and>
   prices (applyDepthUpdate live_example ''BTCUSDT'' update_12_15 1) = prices live_example \<and>
   isInitializing (applyDepthUpdate live_example ''BTCUSDT'' update_12_15 1) ''BTCUSDT'' =
     Some True \<and>
   timers (applyDepthUpdate live_example ''BTCUSDT'' update_12_15 1) =
     [CheckBuffer ''BTCUSDT''] \<and>
   fetching (applyDepthUpdate live_example ''BTCUSDT'' update_12_15 1) = [] \<and>
   orderBooks
     (run (applyDepthUpdate live_example ''BTCUSDT'' update_12_15 1) events_without_snapshot)
     ''BTCUSDT'' =
     Some \<lparr>lastUpdateId = 10, bids = DAList.update 100 2 DAList.empty,
           asks = DAList.update 101 3 DAList.empty\<rparr> \<and>
   noRequestFor live_example ''BTCUSDT'' \<and>
   list_all (\<lambda>e. \<not> isPollFor ''BTCUSDT'' (fst e)) events_without_poll \<and>
   orderBooks
     (run (applyDepthUpdate live_example ''BTCUSDT'' update_12_15 1) events_without_poll)
     ''BTCUSDT'' =
     Some \<lparr>lastUpdateId = 10, bids = DAList.update 100 2 DAList.empty,
           asks = DAList.update 101 3 DAList.empty\<rparr> \<and>
   isInitializing
     (run (applyDepthUpdate live_example ''BTCUSDT'' update_12_15 1) events_without_poll)
     ''BTCUSDT'' = Some True \<and>
   orderBooks double_start_example ''BTCUSDT'' =
     Some \<lparr>lastUpdateId = 505, bids = DAList.update 99 4 DAList.empty, asks = DAList.empty\<rparr> \<and>
   (505::int) + 1 < du_U (update_510_520 ''BTCUSDT'') \<and>
   first_fetch \<in> set (fetching double_start_example) \<and>
   fw_ticker first_fetch = ''BTCUSDT'' \<and>
   fw_firstEventU first_fetch \<le> snap_lastUpdateId snapshot_501 \<and>
   filter (\<lambda>ev. snap_lastUpdateId snapshot_501 < du_u ev) [update_498_501 ''BTCUSDT''] = [] \<and>
   orderBooks
     (snapshotResolved
        (applyDepthUpdate double_start_example ''BTCUSDT'' (update_510_520 ''BTCUSDT'') 8)
        first_fetch [update_498_501 ''BTCUSDT''] snapshot_501 9)
     ''BTCUSDT'' =
     Some \<lparr>lastUpdateId = 501, bids = snapshotLevels [(100, 1)],
           asks = snapshotLevels [(101, 3)]\<rparr> \<and>
   isInitializing
     (snapshotResolved
        (applyDepthUpdate double_start_example ''BTCUSDT'' (update_510_520 ''BTCUSDT'') 8)
        first_fetch [update_498_501 ''BTCUSDT''] snapshot_501 9)
     ''BTCUSDT'' = Some False \<and>
   live live_example ''BTCUSDT'' \<and>
   processDepthUpdate live_example update_12_15 1 =
     applyDepthUpdate live_example ''BTCUSDT'' update_12_15 1 \<and>
   topicTicker (kc_topic kucoin_update_30_31) = Some ''BTC-USDT'' \<and>
   live kucoin_live_example ''BTC-USDT'' \<and>
   orderBooks (kucoin_processOrderBookUpdate kucoin_live_example kucoin_update_30_31 1)
     ''BTC-USDT'' =
     Some \<lparr>lastUpdateId = 31, bids = DAList.empty, asks = DAList.update 101 3 DAList.empty\<rparr> \<and>
   timers (kucoin_processOrderBookUpdate kucoin_live_example kucoin_update_30_31 1) = []"
proof -
  let ?ob = "\<lparr>lastUpdateId = 10, bids = DAList.update 100 2 DAList.empty,
               asks = DAList.update 101 3 DAList.empty\<rparr>"
  let ?ob' = "\<lparr>lastUpdateId = 505, bids = DAList.update 99 4 DAList.empty,
                asks = DAList.empty\<rparr>"
  note h = C2_gap_restarts_initialization [where st = live_example and t = "''BTCUSDT''"
      and now = 1 and d = update_12_15 and ob = ?ob
      and es = events_without_snapshot and es' = events_without_poll
      and st' = double_start_example and d' = "update_510_520 ''BTCUSDT''" and ob' = ?ob'
      and fw = first_fetch and buffer = "[update_498_501 ''BTCUSDT'']" and now' = 8
      and now'' = 9
      and snap = snapshot_501
      and kst = kucoin_live_example and k = "''BTC-USDT''" and kd = kucoin_update_30_31
      and kob = ?ob]
  have gap: "orderBooks live_example ''BTCUSDT'' = Some ?ob"
    "lastUpdateId ?ob + 1 < du_U update_12_15" "lastUpdateId ?ob < du_u update_12_15"
    by (simp_all add: live_example_book update_12_15_def)
  have quiet: "list_all (\<lambda>e. \<not> isSnapshotResolved (fst e)) events_without_snapshot"
    by (simp add: events_without_snapshot_def isSnapshotResolved_def)
  have none: "noRequestFor live_example ''BTCUSDT''"
    by (simp add: noRequestFor_def live_example_requests)
  have nopoll: "list_all (\<lambda>e. \<not> isPollFor ''BTCUSDT'' (fst e)) events_without_poll"
    by (simp add: events_without_poll_def isPollFor_def)
  have gap': "orderBooks double_start_example ''BTCUSDT'' = Some ?ob'"
    "lastUpdateId ?ob' + 1 < du_U (update_510_520 ''BTCUSDT'')"
    "lastUpdateId ?ob' < du_u (update_510_520 ''BTCUSDT'')"
    by (simp_all add: double_start_example_fields update_510_520_def)
  have pending: "first_fetch \<in> set (fetching double_start_example)"
    "fw_ticker first_fetch = ''BTCUSDT''"
    "fw_second first_fetch \<or> fw_firstEventU first_fetch \<le> snap_lastUpdateId snapshot_501"
    "filter (\<lambda>ev. snap_lastUpdateId snapshot_501 < du_u ev) [update_498_501 ''BTCUSDT''] = []"
    by (simp_all add: double_start_example_fields first_fetch_def snapshot_501_def
        update_498_501_def)
  have lv: "live live_example (du_s update_12_15)"
    by (simp add: update_12_15_def live_example_live)
  have kc: "topicTicker (kc_topic kucoin_update_30_31) = Some ''BTC-USDT''"
    "live kucoin_live_example ''BTC-USDT''" "orderBooks kucoin_live_example ''BTC-USDT'' = Some ?ob"
    by (simp_all add: kucoin_update_30_31_def topicTicker_level2 kucoin_live_example_live
        kucoin_live_example_book)
  note rA = h [THEN conjunct1, THEN mp, OF conjI [OF gap(1) conjI [OF gap(2) conjI [OF gap(3) quiet]]]]
  note rB = h [THEN conjunct2, THEN conjunct1, THEN mp,
      OF conjI [OF gap(1) conjI [OF gap(2) conjI [OF gap(3) conjI [OF none nopoll]]]]]
  note rE = h [THEN conjunct2, THEN conjunct2, THEN conjunct1, THEN mp,
      OF conjI [OF gap'(1) conjI [OF gap'(2) conjI [OF gap'(3) conjI [OF pending(1)
        conjI [OF pending(2) conjI [OF pending(3) pending(4)]]]]]]]
  note rC = h [THEN conjunct2, THEN conjunct2, THEN conjunct2, THEN conjunct1, THEN mp, OF lv]
  note rD = h [THEN conjunct2, THEN conjunct2, THEN conjunct2, THEN conjunct2, THEN mp,
      OF conjI [OF kc(1) conjI [OF kc(2) kc(3)]]]
  have a: "orderBooks (applyDepthUpdate live_example ''BTCUSDT'' update_12_15 1) =
             orderBooks live_example"
    "prices (applyDepthUpdate live_example ''BTCUSDT'' update_12_15 1) = prices live_example"
    "isInitializing (applyDepthUpdate live_example ''BTCUSDT'' update_12_15 1) ''BTCUSDT'' =
       Some True"
    "timers (applyDepthUpdate live_example ''BTCUSDT'' update_12_15 1) =
       [CheckBuffer ''BTCUSDT'']"
    "fetching (applyDepthUpdate live_example ''BTCUSDT'' update_12_15 1) = []"
    "orderBooks
       (run (applyDepthUpdate live_example ''BTCUSDT'' update_12_15 1) events_without_snapshot)
       ''BTCUSDT'' = Some ?ob"
    using rA by (simp_all add: live_example_timers live_example_requests)
  have b: "orderBooks
       (run (applyDepthUpdate live_example ''BTCUSDT'' update_12_15 1) events_without_poll)
       ''BTCUSDT'' = Some ?ob"
    "isInitializing
       (run (applyDepthUpdate live_example ''BTCUSDT'' update_12_15 1) events_without_poll)
       ''BTCUSDT'' = Some True"
    using rB by simp_all
  have s: "snap_lastUpdateId snapshot_501 = 501" "snap_bids snapshot_501 = [(100, 1)]"
    "snap_asks snapshot_501 = [(101, 3)]"
    by (simp_all add: snapshot_501_def)
  have e: "orderBooks
       (snapshotResolved
          (applyDepthUpdate double_start_example ''BTCUSDT'' (update_510_520 ''BTCUSDT'') 8)
          first_fetch [update_498_501 ''BTCUSDT''] snapshot_501 9)
       ''BTCUSDT'' =
       Some \<lparr>lastUpdateId = 501, bids = snapshotLevels [(100, 1)],
             asks = snapshotLevels [(101, 3)]\<rparr>"
    "isInitializing
       (snapshotResolved
          (applyDepthUpdate double_start_example ''BTCUSDT'' (update_510_520 ''BTCUSDT'') 8)
          first_fetch [update_498_501 ''BTCUSDT''] snapshot_501 9)
       ''BTCUSDT'' = Some False"
    using rE by (simp_all only: s)
  have c: "processDepthUpdate live_example update_12_15 1 =
           applyDepthUpdate live_example ''BTCUSDT'' update_12_15 1"
    using rC by (simp add: update_12_15_def)
  have ladders:
    "applyLevels (DAList.update 100 2 DAList.empty) [(100, 0)] = DAList.empty"
    "applyLevels (DAList.update 101 3 DAList.empty) [] = DAList.update 101 3 DAList.empty"
    by (simp_all add: applyLevels_def applyLevel_def delete_only_level)
  have kf: "kc_sequenceEnd kucoin_update_30_31 = 31" "kc_bids kucoin_update_30_31 = [(100, 0)]"
    "kc_asks kucoin_update_30_31 = []"
    by (simp_all add: kucoin_update_30_31_def)
  have d: "orderBooks (kucoin_processOrderBookUpdate kucoin_live_example kucoin_update_30_31 1)
       ''BTC-USDT'' =
       Some \<lparr>lastUpdateId = 31, bids = DAList.empty, asks = DAList.update 101 3 DAList.empty\<rparr>"
    "timers (kucoin_processOrderBookUpdate kucoin_live_example kucoin_update_30_31 1) = []"
    using rD by (simp_all add: kf ladders kucoin_live_example_timers)
  have n: "(10::int) + 1 < du_U update_12_15" "10 < du_u update_12_15"
    "(505::int) + 1 < du_U (update_510_520 ''BTCUSDT'')"
    "fw_firstEventU first_fetch \<le> snap_lastUpdateId snapshot_501"
    by (simp_all add: update_12_15_def update_510_520_def first_fetch_def snapshot_501_def)
  note facts = gap(1) n quiet a none nopoll b gap'(1) pending(1,2,4) e live_example_live c
    kc(1,2) d
  show ?thesis
    by (intro conjI) (rule facts)+
qed

lemma gap_example_fields:
  "orderBooks gap_example ''BTCUSDT'' =
     Some \<lparr>lastUpdateId = 505, bids = DAList.update 99 4 DAList.empty, asks = DAList.empty\<rparr>"
  "isInitializing gap_example ''BTCUSDT'' = Some True"
  "fetching gap_example = [first_fetch]"
  "effects gap_example = effects double_start_example"
  by (simp_all add: gap_example_def double_start_example_def double_start_events_def
      first_fetch_def handler_eval binance_eval example_inputs alist_eq_iff ladder_eval)

lemma stale_resync_example_fields:
  "orderBooks stale_resync_example ''BTCUSDT'' =
     Some \<lparr>lastUpdateId = 501, bids = DAList.update 100 1 DAList.empty,
           asks = DAList.update 101 3 DAList.empty\<rparr>"
  "isInitializing stale_resync_example ''BTCUSDT'' = Some False"
  "effects stale_resync_example = effects double_start_example"
  by (simp_all add: stale_resync_example_def gap_example_def double_start_example_def
      double_start_events_def first_fetch_def handler_eval binance_eval example_inputs
      alist_eq_iff ladder_eval)

text \<open>
  Kucoin has no gap test: a live book with update id 10 takes an update for the
  sequence range 20 to 25, loses its bid at 100, takes 25 as its update id and stays
  live, with no timer pending. And in Binance the snapshot that ends a restart need not
  be a fresh one: with a request still in flight from an earlier
  \<^verbatim>\<open>initializeOrderBook\<close> call, the live book with id 505 detects the gap before
  the update for 510 to 520, and the answer to that earlier request, the snapshot with
  id 500, then replaces the book and ends the initializing state at the id 501, with no
  snapshot requested since the gap.
\<close>

theorem C2_counterexample:
  "live kucoin_live_example ''BTC-USDT'' \<and>
   orderBooks kucoin_live_example ''BTC-USDT'' =
     Some \<lparr>lastUpdateId = 10, bids = DAList.update 100 2 DAList.empty,
           asks = DAList.update 101 3 DAList.empty\<rparr> \<and>
   orderBooks
     (kucoin_processOrderBookUpdate kucoin_live_example
        \<lparr>kc_topic = ''/market/level2:BTC-USDT'', kc_sequenceStart = 20, kc_sequenceEnd = 25,
         kc_asks = [], kc_bids = [(100, 0)]\<rparr> 1)
     ''BTC-USDT'' =
     Some \<lparr>lastUpdateId = 25, bids = DAList.empty, asks = DAList.update 101 3 DAList.empty\<rparr> \<and>
   live
     (kucoin_processOrderBookUpdate kucoin_live_example
        \<lparr>kc_topic = ''/market/level2:BTC-USDT'', kc_sequenceStart = 20, kc_sequenceEnd = 25,
         kc_asks = [], kc_bids = [(100, 0)]\<rparr> 1)
     ''BTC-USDT'' \<and>
   timers
     (kucoin_processOrderBookUpdate kucoin_live_example
        \<lparr>kc_topic = ''/market/level2:BTC-USDT'', kc_sequenceStart = 20, kc_sequenceEnd = 25,
         kc_asks = [], kc_bids = [(100, 0)]\<rparr> 1) = [] \<and>
   live double_start_example ''BTCUSDT'' \<and>
   orderBooks double_start_example ''BTCUSDT'' =
     Some \<lparr>lastUpdateId = 505, bids = DAList.update 99 4 DAList.empty, asks = DAList.empty\<rparr> \<and>
   fetching double_start_example = [first_fetch] \<and>
   isInitializing gap_example ''BTCUSDT'' = Some True \<and>
   orderBooks gap_example ''BTCUSDT'' = orderBooks double_start_example ''BTCUSDT'' \<and>
   fetching gap_example = [first_fetch] \<and>
   effects gap_example = effects double_start_example \<and>
   live stale_resync_example ''BTCUSDT'' \<and>
   orderBooks stale_resync_example ''BTCUSDT'' =
     Some \<lparr>lastUpdateId = 501, bids = DAList.update 100 1 DAList.empty,
           asks = DAList.update 101 3 DAList.empty\<rparr> \<and>
   effects stale_resync_example = effects double_start_example"
proof -
  have kucoin:
    "orderBooks
       (kucoin_processOrderBookUpdate kucoin_live_example
          \<lparr>kc_topic = ''/market/level2:BTC-USDT'', kc_sequenceStart = 20, kc_sequenceEnd = 25,
           kc_asks = [], kc_bids = [(100, 0)]\<rparr> 1)
       ''BTC-USDT'' =
       Some \<lparr>lastUpdateId = 25, bids = DAList.empty, asks = DAList.update 101 3 DAList.empty\<rparr>"
    "live
       (kucoin_processOrderBookUpdate kucoin_live_example
          \<lparr>kc_topic = ''/market/level2:BTC-USDT'', kc_sequenceStart = 20, kc_sequenceEnd = 25,
           kc_asks = [], kc_bids = [(100, 0)]\<rparr> 1)
       ''BTC-USDT''"
    "timers
       (kucoin_processOrderBookUpdate kucoin_live_example
          \<lparr>kc_topic = ''/market/level2:BTC-USDT'', kc_sequenceStart = 20, kc_sequenceEnd = 25,
           kc_asks = [], kc_bids = [(100, 0)]\<rparr> 1) = []"
    by (simp_all add: live_def kucoin_live_example_book kucoin_live_example_flag
        kucoin_live_example_timers topicTicker_level2
        kucoin_processOrderBookUpdate_def kucoin_updatePricesOrderBook_def applyLevels_def
        applyLevel_def delete_only_level Let_def)
  have binance: "live double_start_example ''BTCUSDT''" "live stale_resync_example ''BTCUSDT''"
    by (simp_all add: live_def double_start_example_fields stale_resync_example_fields)
  show ?thesis
    by (simp add: kucoin binance kucoin_live_example_live kucoin_live_example_book
        double_start_example_fields gap_example_fields stale_resync_example_fields)
qed

subsection \<open>Replaying the buffer after a snapshot\<close>


lemma installSnapshot_fields [simp]:
  "orderBooks (installSnapshot st t snap) t =
     Some \<lparr>lastUpdateId = snap_lastUpdateId snap, bids = snapshotLevels (snap_bids snap),
           asks = snapshotLevels (snap_asks snap)\<rparr>"
  "prices (installSnapshot st t snap) = prices st"
  "isInitializing (installSnapshot st t snap) = isInitializing st"
  "depthUpdateBuffers (installSnapshot st t snap) = depthUpdateBuffers st"
  "timers (installSnapshot st t snap) = timers st"
  by (simp_all add: installSnapshot_def)














lemma binance_new_fields:
  "prices (binance_new ts) = Map.empty" "timers (binance_new ts) = []"
  "effects (binance_new ts) = []" "fetching (binance_new ts) = []"
  by (simp_all add: binance_new_def Let_def)



subsection \<open>Aggregation\<close>

lemma lookup_addOrder:
  "DAList.lookup (addOrder (+) m order) p =
     (if price order = p
      then Some ((case DAList.lookup m p of Some c \<Rightarrow> c | None \<Rightarrow> 0) + size' order)
      else DAList.lookup m p)"
  by (simp add: addOrder_def Let_def DAList.lookup_update)

lemma lookup_foldl_addOrder:
  "DAList.lookup (foldl (addOrder (+)) m os) p =
     (if (\<exists>order \<in> set os. price order = p) \<or> DAList.lookup m p \<noteq> None
      then Some ((case DAList.lookup m p of Some c \<Rightarrow> c | None \<Rightarrow> 0) + sizeAt os p)
      else None)"
proof (induction os arbitrary: m)
  case Nil
  then show ?case by (auto simp: sizeAt_def)
next
  case (Cons order os)
  show ?case
    by (simp add: Cons.IH lookup_addOrder sizeAt_def split: option.splits)
qed

lemma lookup_priceMap:
  "DAList.lookup (foldl (addOrder (+)) DAList.empty os) p =
     (if \<exists>order \<in> set os. price order = p then Some (sizeAt os p) else None)"
  by (simp add: lookup_foldl_addOrder)

lemma sizeAt_sum_mset:
  "sizeAt xs p = sum_mset (image_mset size' (filter_mset (\<lambda>order. price order = p) (mset xs)))"
  by (induction xs) (simp_all add: sizeAt_def)

lemma sizeAt_mset: "mset os = mset os' \<Longrightarrow> sizeAt os p = sizeAt os' p"
  by (simp add: sizeAt_sum_mset)

lemma set_entries:
  "set (entries m) = {\<lparr>price = p, size' = s\<rparr> | p s. DAList.lookup m p = Some s}"
proof -
  have "set (DAList.impl_of m) = {(p, s). map_of (DAList.impl_of m) p = Some s}"
    by (auto simp: map_of_eq_Some_iff [OF DAList.impl_of_distinct])
  then show ?thesis
    by (auto simp: entries_def DAList.lookup.rep_eq image_iff split: prod.splits)
qed

lemma distinct_entries: "distinct (entries m)"
  using distinct_prices_entries [of m] by (simp add: distinct_map)

lemma inj_on_price_entries: "inj_on price (set (entries m))"
  using distinct_prices_entries [of m] by (simp add: distinct_map)

lemma entries_mset_eq:
  assumes "DAList.lookup m = DAList.lookup m'"
  shows "mset (entries m) = mset (entries m')"
proof -
  have "set (entries m) = set (entries m')" using assms by (simp add: set_entries)
  then show ?thesis
    using set_eq_iff_mset_eq_distinct [OF distinct_entries distinct_entries, of m m'] by blast
qed

lemma sort_key_entries_eq:
  assumes "DAList.lookup m = DAList.lookup m'" "inj f"
  shows "sort_key (\<lambda>x. f (price x)) (entries m) = sort_key (\<lambda>x. f (price x)) (entries m')"
proof (rule sort_key_inj_key_eq)
  show "mset (entries m) = mset (sort_key (\<lambda>x. f (price x)) (entries m'))"
    using entries_mset_eq [OF assms(1)] by simp
  show "inj_on (\<lambda>x. f (price x)) (set (entries m))"
    using inj_on_price_entries [of m] assms(2) by (auto simp: inj_on_def)
  show "sorted (map (\<lambda>x. f (price x)) (sort_key (\<lambda>x. f (price x)) (entries m')))"
    by (rule sorted_sort_key)
qed

lemma aggregateOrders_mset:
  assumes "mset os = mset os'"
  shows "aggregateOrders (+) os isBid = aggregateOrders (+) os' isBid"
proof -
  have s: "set os = set os'" using assms by (rule mset_eq_setD)
  have l: "DAList.lookup (foldl (addOrder (+)) DAList.empty os) =
           DAList.lookup (foldl (addOrder (+)) DAList.empty os')"
    by (rule ext) (simp add: lookup_priceMap s sizeAt_mset [OF assms])
  have d: "sortDescending (entries (foldl (addOrder (+)) DAList.empty os)) =
           sortDescending (entries (foldl (addOrder (+)) DAList.empty os'))"
    unfolding sortDescending_def by (rule sort_key_entries_eq [OF l, of uminus]) simp
  have a: "sortAscending (entries (foldl (addOrder (+)) DAList.empty os)) =
           sortAscending (entries (foldl (addOrder (+)) DAList.empty os'))"
    unfolding sortAscending_def by (rule sort_key_entries_eq [OF l, of "\<lambda>x. x"]) simp
  show ?thesis
    unfolding aggregateOrders_def Let_def by (simp only: d a)
qed

lemma mset_collectOrders:
  "mset (collectOrders xs t isBid) =
     sum_mset (image_mset (\<lambda>e. mset (exchangeOrders t isBid (snd e))) (mset xs))"
  by (induction xs) (simp_all add: collectOrders_def case_prod_beta)

lemma collectOrders_mset:
  "mset exs = mset exs' \<Longrightarrow> mset (collectOrders exs t isBid) = mset (collectOrders exs' t isBid)"
  by (simp add: mset_collectOrders)

lemma aggregateTick_mset:
  assumes "mset exs = mset exs'"
  shows "aggregateTick (+) exs t d = aggregateTick (+) exs' t d"
  unfolding aggregateTick_def
  by (simp only: aggregateOrders_mset [OF collectOrders_mset [OF assms, of t True], of True]
      aggregateOrders_mset [OF collectOrders_mset [OF assms, of t False], of False])


lemma set_aggregateOrders:
  "set (aggregateOrders (+) os isBid) =
     {\<lparr>price = p, size' = sizeAt os p\<rparr> | p. \<exists>order \<in> set os. price order = p}"
  by (auto simp: aggregateOrders_def Let_def sortDescending_def sortAscending_def set_entries
      lookup_priceMap split: if_splits)

lemma distinct_prices_sort_key:
  "distinct (map price xs) \<Longrightarrow> distinct (map price (sort_key f xs))"
  by (metis distinct_map distinct_sort set_sort)

lemma distinct_prices_aggregateOrders: "distinct (map price (aggregateOrders add os isBid))"
  by (simp add: aggregateOrders_def Let_def sortDescending_def sortAscending_def
      distinct_prices_entries distinct_prices_sort_key)

lemma aggregateOrders_sorted:
  "sorted_wrt (\<lambda>x y. price x > price y) (aggregateOrders add os True)"
  "sorted_wrt (\<lambda>x y. price x < price y) (aggregateOrders add os False)"
  by (simp_all add: aggregateOrders_def Let_def sortDescending_strict sortAscending_strict
      distinct_prices_entries)

lemma sorted_wrt_take': "sorted_wrt R xs \<Longrightarrow> sorted_wrt R (take n xs)"
  by (metis append_take_drop_id sorted_wrt_append)

lemma aggregateTick_sorted:
  "orders_sorted d
     \<lparr>bid = agg_bids (aggregateTick add exs t d), ask = agg_asks (aggregateTick add exs t d),
      orders_lastUpdateId = None\<rparr>"
  by (simp add: orders_sorted_def aggregateTick_def aggregateOrders_sorted sorted_wrt_take')

lemma foldl_sum_sizes:
  "foldl (\<lambda>sum order. sum + size' order) a xs = a + sum_list (map size' xs)"
  by (induction xs arbitrary: a) simp_all

lemma AList_update_fresh: "k \<notin> fst ` set al \<Longrightarrow> AList.update k v al = al @ [(k, v)]"
  by (induction al) auto

lemma foldl_addSource:
  assumes "distinct (map fst exs)" "fst ` set acc \<inter> fst ` set exs = {}"
  shows "foldl (addSource (+) t p isBid) acc exs =
           acc @ map (\<lambda>e. (fst e, sizeAt (exchangeOrders t isBid (snd e)) p))
                   (filter (\<lambda>e. \<exists>order \<in> set (exchangeOrders t isBid (snd e)). price order = p)
                      exs)"
  using assms
proof (induction exs arbitrary: acc)
  case Nil
  then show ?case by simp
next
  case (Cons e exs)
  obtain n ex where e: "e = (n, ex)" by (cases e)
  let ?m = "filter (\<lambda>order. price order = p) (exchangeOrders t isBid ex)"
  show ?case
  proof (cases "?m = []")
    case True
    then have no: "\<not> (\<exists>order \<in> set (exchangeOrders t isBid ex). price order = p)"
      by (auto simp: filter_empty_conv)
    have "foldl (addSource (+) t p isBid) acc (e # exs) = foldl (addSource (+) t p isBid) acc exs"
      using True by (simp add: addSource_def e)
    also have "\<dots> = acc @ map (\<lambda>e. (fst e, sizeAt (exchangeOrders t isBid (snd e)) p))
                   (filter (\<lambda>e. \<exists>order \<in> set (exchangeOrders t isBid (snd e)). price order = p)
                      exs)"
      using Cons.prems by (intro Cons.IH) auto
    finally show ?thesis using no by (simp add: e)
  next
    case False
    then have yes: "\<exists>order \<in> set (exchangeOrders t isBid ex). price order = p"
      by (auto simp: filter_empty_conv)
    have fresh: "n \<notin> fst ` set acc" using Cons.prems by (auto simp: e)
    have "foldl (addSource (+) t p isBid) acc (e # exs) =
          foldl (addSource (+) t p isBid) (acc @ [(n, sizeAt (exchangeOrders t isBid ex) p)]) exs"
      using False fresh
      by (simp add: addSource_def e Let_def AList_update_fresh foldl_sum_sizes sizeAt_def)
    also have "\<dots> = (acc @ [(n, sizeAt (exchangeOrders t isBid ex) p)]) @
                 map (\<lambda>e. (fst e, sizeAt (exchangeOrders t isBid (snd e)) p))
                   (filter (\<lambda>e. \<exists>order \<in> set (exchangeOrders t isBid (snd e)). price order = p)
                      exs)"
      using Cons.prems by (intro Cons.IH) (auto simp: e)
    finally show ?thesis using yes by (simp add: e)
  qed
qed

lemma getSourcesForPrice_eq:
  assumes "distinct (map fst exs)"
  shows "getSourcesForPrice (+) exs t p isBid =
           map (\<lambda>e. (fst e, sizeAt (exchangeOrders t isBid (snd e)) p))
             (filter (\<lambda>e. \<exists>order \<in> set (exchangeOrders t isBid (snd e)). price order = p) exs)"
  unfolding getSourcesForPrice_def using foldl_addSource [OF assms, of "[]" t p isBid] by simp

lemma sizeAt_none: "\<not> (\<exists>order \<in> set os. price order = p) \<Longrightarrow> sizeAt os p = 0"
  by (induction os) (auto simp: sizeAt_def)

lemma sizeAt_collectOrders:
  "sizeAt (collectOrders exs t isBid) p =
     sum_list (map (\<lambda>e. sizeAt (exchangeOrders t isBid (snd e)) p) exs)"
  by (induction exs) (simp_all add: collectOrders_def sizeAt_def case_prod_beta)

lemma sum_list_filter_zero:
  "(\<And>x. x \<in> set xs \<Longrightarrow> \<not> P x \<Longrightarrow> f x = (0::rat)) \<Longrightarrow>
   sum_list (map f (filter P xs)) = sum_list (map f xs)"
  by (induction xs) auto

lemma sources_total:
  assumes "distinct (map fst exs)"
  shows "sum_list (map snd (getSourcesForPrice (+) exs t p isBid)) =
           sizeAt (collectOrders exs t isBid) p"
proof -
  have "sum_list (map snd (getSourcesForPrice (+) exs t p isBid)) =
        sum_list (map (\<lambda>e. sizeAt (exchangeOrders t isBid (snd e)) p)
          (filter (\<lambda>e. \<exists>order \<in> set (exchangeOrders t isBid (snd e)). price order = p) exs))"
    by (simp add: getSourcesForPrice_eq [OF assms] comp_def)
  also have "\<dots> = sum_list (map (\<lambda>e. sizeAt (exchangeOrders t isBid (snd e)) p) exs)"
    by (rule sum_list_filter_zero) (simp add: sizeAt_none)
  finally show ?thesis by (simp add: sizeAt_collectOrders)
qed


lemmas aggregate_eval =
  aggregateTick_def collectOrders_def exchangeOrders_def aggregateOrders_def addOrder_def
  entries_def sortDescending_def sortAscending_def getSourcesForPrice_def addSource_def
  DAList.update.rep_eq DAList.empty.rep_eq DAList.lookup.rep_eq Let_def

text \<open>Evaluating the rounded addition on the sizes of the examples.\<close>

lemma floor_rat_numeral:
  "\<lfloor>(numeral a :: rat) / numeral b\<rfloor> = numeral a div numeral b"
  using floor_divide_of_int_eq [of "numeral a" "numeral b", where ?'a = rat] by simp

lemma parsed_0_1: "size_0_1 = 3602879701896397 / 36028797018963968"
  unfolding size_0_1_def js_add_def fl_def Let_def exponentOf_def
  apply (simp add: exponentFrom.simps)
  apply (simp add: pow2_def)
  apply (simp add: roundHalfEven_def Let_def floor_rat_numeral)
  done

lemma parsed_0_2: "size_0_2 = 3602879701896397 / 18014398509481984"
  unfolding size_0_2_def js_add_def fl_def Let_def exponentOf_def
  apply (simp add: exponentFrom.simps)
  apply (simp add: pow2_def)
  apply (simp add: roundHalfEven_def Let_def floor_rat_numeral)
  done

lemma parsed_0_3: "size_0_3 = 5404319552844595 / 18014398509481984"
  unfolding size_0_3_def js_add_def fl_def Let_def exponentOf_def
  apply (simp add: exponentFrom.simps)
  apply (simp add: pow2_def)
  apply (simp add: roundHalfEven_def Let_def floor_rat_numeral)
  done

lemma js_add_A: "js_add 0 (3602879701896397 / 36028797018963968) = 3602879701896397 / 36028797018963968"
  unfolding js_add_def fl_def Let_def exponentOf_def
  apply (simp add: exponentFrom.simps)
  apply (simp add: pow2_def)
  apply (simp add: roundHalfEven_def Let_def floor_rat_numeral)
  done

lemma js_add_AB: "js_add (3602879701896397 / 36028797018963968) (3602879701896397 / 18014398509481984) = 1351079888211149 / 4503599627370496"
  unfolding js_add_def fl_def Let_def exponentOf_def
  apply (simp add: exponentFrom.simps)
  apply (simp add: pow2_def)
  apply (simp add: roundHalfEven_def Let_def floor_rat_numeral)
  done

lemma js_add_ABC: "js_add (1351079888211149 / 4503599627370496) (5404319552844595 / 18014398509481984) = 1351079888211149 / 2251799813685248"
  unfolding js_add_def fl_def Let_def exponentOf_def
  apply (simp add: exponentFrom.simps)
  apply (simp add: pow2_def)
  apply (simp add: roundHalfEven_def Let_def floor_rat_numeral)
  done

lemma js_add_C: "js_add 0 (5404319552844595 / 18014398509481984) = 5404319552844595 / 18014398509481984"
  unfolding js_add_def fl_def Let_def exponentOf_def
  apply (simp add: exponentFrom.simps)
  apply (simp add: pow2_def)
  apply (simp add: roundHalfEven_def Let_def floor_rat_numeral)
  done

lemma js_add_CB: "js_add (5404319552844595 / 18014398509481984) (3602879701896397 / 18014398509481984) = 1 / 2"
  unfolding js_add_def fl_def Let_def exponentOf_def
  apply (simp add: exponentFrom.simps)
  apply (simp add: pow2_def)
  apply (simp add: roundHalfEven_def Let_def floor_rat_numeral)
  done

lemma js_add_CBA: "js_add (1 / 2) (3602879701896397 / 36028797018963968) = 5404319552844595 / 9007199254740992"
  unfolding js_add_def fl_def Let_def exponentOf_def
  apply (simp add: exponentFrom.simps)
  apply (simp add: pow2_def)
  apply (simp add: roundHalfEven_def Let_def floor_rat_numeral)
  done

lemma js_add_0_2: "js_add 0 2 = 2"
  unfolding js_add_def fl_def Let_def exponentOf_def
  apply (simp add: exponentFrom.simps)
  apply (simp add: pow2_def)
  apply (simp add: roundHalfEven_def Let_def floor_rat_numeral)
  done

lemma js_add_2_3: "js_add 2 3 = 5"
  unfolding js_add_def fl_def Let_def exponentOf_def
  apply (simp add: exponentFrom.simps)
  apply (simp add: pow2_def)
  apply (simp add: roundHalfEven_def Let_def floor_rat_numeral)
  done

lemma js_add_0_3: "js_add 0 3 = 3"
  unfolding js_add_def fl_def Let_def exponentOf_def
  apply (simp add: exponentFrom.simps)
  apply (simp add: pow2_def)
  apply (simp add: roundHalfEven_def Let_def floor_rat_numeral)
  done

lemmas parsed_sizes = parsed_0_1 parsed_0_2 parsed_0_3

lemmas js_sums = js_add_A js_add_AB js_add_ABC js_add_C js_add_CB js_add_CBA
  js_add_0_2 js_add_2_3 js_add_0_3

lemma exchanges_example_tick:
  "aggregateTick (+) exchanges_example ''BTC'' 15 =
     \<lparr>agg_bids = [\<lparr>price = 100, size' = 5\<rparr>], agg_asks = []\<rparr>"
  by (simp add: exchanges_example_def aggregate_eval)

lemma exchanges_example_sources:
  "getSourcesForPrice (+) exchanges_example ''BTC'' 100 True = [(''A'', 2), (''B'', 3)]"
  by (simp add: exchanges_example_def aggregate_eval)

lemma exchanges_example_js:
  "aggregateTick js_add exchanges_example ''BTC'' 15 =
     \<lparr>agg_bids = [\<lparr>price = 100, size' = 5\<rparr>], agg_asks = []\<rparr>"
  "getSourcesForPrice js_add exchanges_example ''BTC'' 100 True = [(''A'', 2), (''B'', 3)]"
  by (simp_all add: exchanges_example_def aggregate_eval js_sums)

lemma lookup_addOrder_with:
  "DAList.lookup (addOrder add m order) p =
     (if price order = p
      then Some (add (case DAList.lookup m p of Some c \<Rightarrow> c | None \<Rightarrow> 0) (size' order))
      else DAList.lookup m p)"
  by (simp add: addOrder_def Let_def DAList.lookup_update)

lemma lookup_foldl_addOrder_with:
  "DAList.lookup (foldl (addOrder add) m os) p =
     (if (\<exists>order \<in> set os. price order = p) \<or> DAList.lookup m p \<noteq> None
      then Some (foldl (\<lambda>sum order. add sum (size' order))
                   (case DAList.lookup m p of Some c \<Rightarrow> c | None \<Rightarrow> 0)
                   (filter (\<lambda>order. price order = p) os))
      else None)"
proof (induction os arbitrary: m)
  case Nil
  then show ?case by auto
next
  case (Cons order os)
  show ?case
    by (simp add: Cons.IH lookup_addOrder_with split: option.splits)
qed

lemma lookup_priceMap_with:
  "DAList.lookup (foldl (addOrder add) DAList.empty os) p =
     (if \<exists>order \<in> set os. price order = p then Some (sizeAtWith add os p) else None)"
  by (simp add: lookup_foldl_addOrder_with sizeAtWith_def)

lemma set_aggregateOrders_with:
  "set (aggregateOrders add os isBid) =
     {\<lparr>price = p, size' = sizeAtWith add os p\<rparr> | p. \<exists>order \<in> set os. price order = p}"
  by (auto simp: aggregateOrders_def Let_def sortDescending_def sortAscending_def set_entries
      lookup_priceMap_with split: if_splits)

lemma foldl_addSource_with:
  assumes "distinct (map fst exs)" "fst ` set acc \<inter> fst ` set exs = {}"
  shows "foldl (addSource add t p isBid) acc exs =
           acc @ map (\<lambda>e. (fst e, sizeAtWith add (exchangeOrders t isBid (snd e)) p))
                   (filter (\<lambda>e. \<exists>order \<in> set (exchangeOrders t isBid (snd e)). price order = p)
                      exs)"
  using assms
proof (induction exs arbitrary: acc)
  case Nil
  then show ?case by simp
next
  case (Cons e exs)
  obtain n ex where e: "e = (n, ex)" by (cases e)
  let ?m = "filter (\<lambda>order. price order = p) (exchangeOrders t isBid ex)"
  show ?case
  proof (cases "?m = []")
    case True
    then have no: "\<not> (\<exists>order \<in> set (exchangeOrders t isBid ex). price order = p)"
      by (auto simp: filter_empty_conv)
    have "foldl (addSource add t p isBid) acc (e # exs) = foldl (addSource add t p isBid) acc exs"
      using True by (simp add: addSource_def e)
    also have "\<dots> = acc @ map (\<lambda>e. (fst e, sizeAtWith add (exchangeOrders t isBid (snd e)) p))
                   (filter (\<lambda>e. \<exists>order \<in> set (exchangeOrders t isBid (snd e)). price order = p)
                      exs)"
      using Cons.prems by (intro Cons.IH) auto
    finally show ?thesis using no by (simp add: e)
  next
    case False
    then have yes: "\<exists>order \<in> set (exchangeOrders t isBid ex). price order = p"
      by (auto simp: filter_empty_conv)
    have fresh: "n \<notin> fst ` set acc" using Cons.prems by (auto simp: e)
    have "foldl (addSource add t p isBid) acc (e # exs) =
          foldl (addSource add t p isBid)
            (acc @ [(n, sizeAtWith add (exchangeOrders t isBid ex) p)]) exs"
      using False fresh
      by (simp add: addSource_def e Let_def AList_update_fresh sizeAtWith_def)
    also have "\<dots> = (acc @ [(n, sizeAtWith add (exchangeOrders t isBid ex) p)]) @
                 map (\<lambda>e. (fst e, sizeAtWith add (exchangeOrders t isBid (snd e)) p))
                   (filter (\<lambda>e. \<exists>order \<in> set (exchangeOrders t isBid (snd e)). price order = p)
                      exs)"
      using Cons.prems by (intro Cons.IH) (auto simp: e)
    finally show ?thesis using yes by (simp add: e)
  qed
qed

lemma getSourcesForPrice_with:
  assumes "distinct (map fst exs)"
  shows "getSourcesForPrice add exs t p isBid =
           map (\<lambda>e. (fst e, sizeAtWith add (exchangeOrders t isBid (snd e)) p))
             (filter (\<lambda>e. \<exists>order \<in> set (exchangeOrders t isBid (snd e)). price order = p) exs)"
  unfolding getSourcesForPrice_def using foldl_addSource_with [OF assms, of "[]" add t p isBid]
  by simp

lemma sizeAtWith_plus: "sizeAtWith (+) os p = sizeAt os p"
  by (simp add: sizeAtWith_def sizeAt_def foldl_sum_sizes)

lemma sources_total_with:
  assumes "distinct (map fst exs)"
  shows "sum_list (map snd (getSourcesForPrice (+) exs t p isBid)) =
           sizeAtWith (+) (collectOrders exs t isBid) p"
  using sources_total [OF assms] by (simp add: sizeAtWith_plus)

text \<open>
  C5. Aggregation sums the sizes of the levels with the same price into one level, and
  the source query attributes a price to the exchanges that quote it. For the addition
  the page runs with, whichever it is: the aggregated side has one level per price; the
  level of a quoted price carries the sizes of all collected orders at that price, added
  from 0 in the order of collection; the sources of a price list each exchange that has
  orders there with its sizes added in the same way. With exact addition that value is
  the sum of the sizes, and the sources add up to the aggregated size. With a bid of
  size 2 at 100 from exchange A and a bid of size 3 at 100 from exchange B, under exact
  and under rounded addition, the aggregated book has the single bid level of size 5 at
  100, and the sources of 100 on the bid side are A with 2 and B with 3.
\<close>

theorem C5_aggregation_sums_sizes:
  "distinct (map price (aggregateOrders add os isBid)) \<and>
   set (aggregateOrders add os isBid) =
     {\<lparr>price = p', size' = sizeAtWith add os p'\<rparr> | p'. \<exists>order \<in> set os. price order = p'} \<and>
   ((\<exists>order \<in> set os. price order = p) \<longrightarrow>
      \<lparr>price = p, size' = sizeAtWith add os p\<rparr> \<in> set (aggregateOrders add os isBid)) \<and>
   (distinct (map fst exs) \<longrightarrow>
      getSourcesForPrice add exs t p isBid =
        map (\<lambda>e. (fst e, sizeAtWith add (exchangeOrders t isBid (snd e)) p))
          (filter (\<lambda>e. \<exists>order \<in> set (exchangeOrders t isBid (snd e)). price order = p) exs)) \<and>
   sizeAtWith (+) os p = sum_list (map size' (filter (\<lambda>order. price order = p) os)) \<and>
   (distinct (map fst exs) \<longrightarrow>
      sum_list (map snd (getSourcesForPrice (+) exs t p isBid)) =
        sizeAtWith (+) (collectOrders exs t isBid) p) \<and>
   aggregateTick (+) exchanges_example ''BTC'' 15 =
     \<lparr>agg_bids = [\<lparr>price = 100, size' = 5\<rparr>], agg_asks = []\<rparr> \<and>
   getSourcesForPrice (+) exchanges_example ''BTC'' 100 True = [(''A'', 2), (''B'', 3)] \<and>
   aggregateTick js_add exchanges_example ''BTC'' 15 =
     \<lparr>agg_bids = [\<lparr>price = 100, size' = 5\<rparr>], agg_asks = []\<rparr> \<and>
   getSourcesForPrice js_add exchanges_example ''BTC'' 100 True = [(''A'', 2), (''B'', 3)]"
proof (intro conjI impI)
  show "aggregateTick js_add exchanges_example ''BTC'' 15 =
     \<lparr>agg_bids = [\<lparr>price = 100, size' = 5\<rparr>], agg_asks = []\<rparr>"
    "getSourcesForPrice js_add exchanges_example ''BTC'' 100 True = [(''A'', 2), (''B'', 3)]"
    by (rule exchanges_example_js)+
  show "distinct (map price (aggregateOrders add os isBid))"
    by (rule distinct_prices_aggregateOrders)
  show "set (aggregateOrders add os isBid) =
     {\<lparr>price = p', size' = sizeAtWith add os p'\<rparr> | p'. \<exists>order \<in> set os. price order = p'}"
    by (rule set_aggregateOrders_with)
  show "\<lparr>price = p, size' = sizeAtWith add os p\<rparr> \<in> set (aggregateOrders add os isBid)"
    if "\<exists>order \<in> set os. price order = p"
    using that by (simp add: set_aggregateOrders_with)
  show "getSourcesForPrice add exs t p isBid =
        map (\<lambda>e. (fst e, sizeAtWith add (exchangeOrders t isBid (snd e)) p))
          (filter (\<lambda>e. \<exists>order \<in> set (exchangeOrders t isBid (snd e)). price order = p) exs)"
    if "distinct (map fst exs)" using that by (rule getSourcesForPrice_with)
  show "sizeAtWith (+) os p = sum_list (map size' (filter (\<lambda>order. price order = p) os))"
    by (simp add: sizeAtWith_plus sizeAt_def)
  show "sum_list (map snd (getSourcesForPrice (+) exs t p isBid)) =
        sizeAtWith (+) (collectOrders exs t isBid) p"
    if "distinct (map fst exs)" using that by (rule sources_total_with)
  show "aggregateTick (+) exchanges_example ''BTC'' 15 =
     \<lparr>agg_bids = [\<lparr>price = 100, size' = 5\<rparr>], agg_asks = []\<rparr>"
    by (rule exchanges_example_tick)
  show "getSourcesForPrice (+) exchanges_example ''BTC'' 100 True = [(''A'', 2), (''B'', 3)]"
    by (rule exchanges_example_sources)
qed

theorem C5_witness:
  "price \<lparr>price = 100, size' = 2\<rparr> = 100 \<and>
   collectOrders exchanges_example ''BTC'' True =
     [\<lparr>price = 100, size' = 2\<rparr>, \<lparr>price = 100, size' = 3\<rparr>] \<and>
   sizeAtWith js_add (collectOrders exchanges_example ''BTC'' True) 100 = 5 \<and>
   \<lparr>price = 100, size' = 5\<rparr> \<in>
     set (aggregateOrders js_add (collectOrders exchanges_example ''BTC'' True) True) \<and>
   distinct (map fst exchanges_example) \<and>
   getSourcesForPrice js_add exchanges_example ''BTC'' 100 True = [(''A'', 2), (''B'', 3)] \<and>
   sum_list (map snd (getSourcesForPrice (+) exchanges_example ''BTC'' 100 True)) = 5"
proof -
  note h = C5_aggregation_sums_sizes [where os = "collectOrders exchanges_example ''BTC'' True"
      and isBid = True and p = 100 and exs = exchanges_example and t = "''BTC''"
      and add = js_add]
  have os: "collectOrders exchanges_example ''BTC'' True =
              [\<lparr>price = 100, size' = 2\<rparr>, \<lparr>price = 100, size' = 3\<rparr>]"
    by (simp add: exchanges_example_def collectOrders_def exchangeOrders_def)
  have sz: "sizeAtWith js_add (collectOrders exchanges_example ''BTC'' True) 100 = 5"
    by (simp add: os sizeAtWith_def js_sums)
  have sz': "sizeAtWith (+) (collectOrders exchanges_example ''BTC'' True) 100 = 5"
    by (simp add: os sizeAtWith_def)
  have hyp1: "\<exists>order \<in> set (collectOrders exchanges_example ''BTC'' True). price order = 100"
    by (simp add: os)
  have hyp2: "distinct (map fst exchanges_example)"
    by (simp add: exchanges_example_def)
  note r1 = h [THEN conjunct2, THEN conjunct2, THEN conjunct1, THEN mp, OF hyp1]
  note r2 = h [THEN conjunct2, THEN conjunct2, THEN conjunct2, THEN conjunct2, THEN conjunct2,
      THEN conjunct1, THEN mp, OF hyp2]
  note r3 = h [THEN conjunct2, THEN conjunct2, THEN conjunct2, THEN conjunct2, THEN conjunct2,
      THEN conjunct2, THEN conjunct2, THEN conjunct2, THEN conjunct2]
  show ?thesis using r1 r2 r3 hyp2 sz sz' os by simp
qed


lemma keys_addOrder:
  "(DAList.lookup (addOrder add m order) p \<noteq> None) =
     (price order = p \<or> DAList.lookup m p \<noteq> None)"
  by (simp add: addOrder_def Let_def DAList.lookup_update)

lemma keys_foldl_addOrder:
  "(DAList.lookup (foldl (addOrder add) m os) p \<noteq> None) =
     ((\<exists>order \<in> set os. price order = p) \<or> DAList.lookup m p \<noteq> None)"
proof (induction os arbitrary: m)
  case Nil
  then show ?case by simp
next
  case (Cons order os)
  show ?case unfolding foldl_Cons Cons.IH keys_addOrder by auto
qed

lemma prices_entries: "set (map price (entries m)) = {p. DAList.lookup m p \<noteq> None}"
proof -
  have "set (map price (entries m)) = fst ` set (DAList.impl_of m)"
    by (simp add: map_price_entries)
  also have "\<dots> = dom (map_of (DAList.impl_of m))" by (simp add: dom_map_of_conv_image_fst)
  finally show ?thesis by (auto simp: DAList.lookup.rep_eq dom_def)
qed

lemma prices_priceMap:
  "set (map price (entries (foldl (addOrder add) DAList.empty os))) = price ` set os"
  unfolding prices_entries keys_foldl_addOrder by auto

lemma prices_sortAscending:
  assumes "distinct (map price xs)" "distinct (map price ys)"
    "set (map price xs) = set (map price ys)"
  shows "map price (sortAscending xs) = map price (sortAscending ys)"
  unfolding sortAscending_def
proof (rule sorted_distinct_set_unique)
  show "sorted (map price (sort_key price xs))" "sorted (map price (sort_key price ys))"
    by (rule sorted_sort_key)+
  show "distinct (map price (sort_key price xs))" "distinct (map price (sort_key price ys))"
    using assms by (simp_all add: distinct_prices_sort_key)
  show "set (map price (sort_key price xs)) = set (map price (sort_key price ys))"
    using assms(3) by simp
qed

lemma prices_sortDescending:
  assumes "distinct (map price xs)" "distinct (map price ys)"
    "set (map price xs) = set (map price ys)"
  shows "map price (sortDescending xs) = map price (sortDescending ys)"
proof -
  let ?f = "\<lambda>x. - price x"
  have d: "\<And>zs. distinct (map price zs) \<Longrightarrow> distinct (map ?f (sort_key ?f zs))"
  proof -
    fix zs assume "distinct (map price zs)"
    then have "distinct (map price (sort_key ?f zs))" by (rule distinct_prices_sort_key)
    then have "distinct (map uminus (map price (sort_key ?f zs)))"
      by (simp add: distinct_map inj_on_def)
    then show "distinct (map ?f (sort_key ?f zs))" by (simp add: comp_def)
  qed
  have "map ?f (sort_key ?f xs) = map ?f (sort_key ?f ys)"
  proof (rule sorted_distinct_set_unique)
    show "sorted (map ?f (sort_key ?f xs))" "sorted (map ?f (sort_key ?f ys))"
      by (rule sorted_sort_key)+
    show "distinct (map ?f (sort_key ?f xs))" "distinct (map ?f (sort_key ?f ys))"
      using assms d by simp_all
    have "set (map ?f (sort_key ?f xs)) = uminus ` set (map price xs)"
      by (simp add: image_image)
    also have "\<dots> = uminus ` set (map price ys)" by (simp only: assms(3))
    also have "\<dots> = set (map ?f (sort_key ?f ys))" by (simp add: image_image)
    finally show "set (map ?f (sort_key ?f xs)) = set (map ?f (sort_key ?f ys))" .
  qed
  then have "map uminus (map ?f (sort_key ?f xs)) = map uminus (map ?f (sort_key ?f ys))"
    by simp
  then show ?thesis by (simp add: sortDescending_def comp_def)
qed

lemma prices_aggregateOrders:
  assumes "set os = set os'"
  shows "map price (aggregateOrders add os isBid) = map price (aggregateOrders add' os' isBid)"
proof -
  let ?m = "foldl (addOrder add) DAList.empty os"
  let ?m' = "foldl (addOrder add') DAList.empty os'"
  have s: "set (map price (entries ?m)) = set (map price (entries ?m'))"
    unfolding prices_priceMap using assms by simp
  show ?thesis
    unfolding aggregateOrders_def Let_def
    using prices_sortAscending [OF distinct_prices_entries distinct_prices_entries s]
      prices_sortDescending [OF distinct_prices_entries distinct_prices_entries s]
    by (cases isBid) simp_all
qed

lemma prices_aggregateTick:
  assumes "mset exs = mset exs'"
  shows "map price (agg_bids (aggregateTick add exs t d)) =
           map price (agg_bids (aggregateTick add exs' t d))"
    and "map price (agg_asks (aggregateTick add exs t d)) =
           map price (agg_asks (aggregateTick add exs' t d))"
proof -
  have s: "\<And>b. set (collectOrders exs t b) = set (collectOrders exs' t b)"
    using collectOrders_mset [OF assms] by (rule mset_eq_setD)
  have b: "map price (aggregateOrders add (collectOrders exs t True) True) =
           map price (aggregateOrders add (collectOrders exs' t True) True)"
    by (rule prices_aggregateOrders [OF s])
  have a: "map price (aggregateOrders add (collectOrders exs t False) False) =
           map price (aggregateOrders add (collectOrders exs' t False) False)"
    by (rule prices_aggregateOrders [OF s])
  show "map price (agg_bids (aggregateTick add exs t d)) =
           map price (agg_bids (aggregateTick add exs' t d))"
    unfolding aggregateTick_def aggregatedOrderBook.simps take_map [symmetric] by (simp only: b)
  show "map price (agg_asks (aggregateTick add exs t d)) =
           map price (agg_asks (aggregateTick add exs' t d))"
    unfolding aggregateTick_def aggregatedOrderBook.simps take_map [symmetric] by (simp only: a)
qed


lemma three_exchanges_tick:
  "aggregateTick js_add three_exchanges ''BTC'' 15 =
     \<lparr>agg_bids = [\<lparr>price = 100, size' = 1351079888211149 / 2251799813685248\<rparr>], agg_asks = []\<rparr>"
  "aggregateTick js_add (rev three_exchanges) ''BTC'' 15 =
     \<lparr>agg_bids = [\<lparr>price = 100, size' = 5404319552844595 / 9007199254740992\<rparr>], agg_asks = []\<rparr>"
  by (simp_all add: three_exchanges_def exchange_with_bid_def aggregate_eval parsed_sizes
      js_sums)

text \<open>
  C6 (as amended). For any two lists of exchanges that are permutations of each other,
  the aggregated book has the same prices in the same sorted order on both sides,
  whatever the addition of sizes is; and with exact addition of the sizes the whole
  aggregated book is the same.
\<close>

theorem C6_aggregation_order_independent:
  "mset exs = mset exs' \<longrightarrow>
     aggregateTick (+) exs selectedTicker orderbookDepth =
       aggregateTick (+) exs' selectedTicker orderbookDepth \<and>
     map price (agg_bids (aggregateTick add exs selectedTicker orderbookDepth)) =
       map price (agg_bids (aggregateTick add exs' selectedTicker orderbookDepth)) \<and>
     map price (agg_asks (aggregateTick add exs selectedTicker orderbookDepth)) =
       map price (agg_asks (aggregateTick add exs' selectedTicker orderbookDepth))"
proof (intro impI conjI)
  assume a: "mset exs = mset exs'"
  show "aggregateTick (+) exs selectedTicker orderbookDepth =
       aggregateTick (+) exs' selectedTicker orderbookDepth"
    by (rule aggregateTick_mset [OF a])
  show "map price (agg_bids (aggregateTick add exs selectedTicker orderbookDepth)) =
       map price (agg_bids (aggregateTick add exs' selectedTicker orderbookDepth))"
    "map price (agg_asks (aggregateTick add exs selectedTicker orderbookDepth)) =
       map price (agg_asks (aggregateTick add exs' selectedTicker orderbookDepth))"
    by (rule prices_aggregateTick [OF a])+
qed

theorem C6_witness:
  "mset three_exchanges = mset (rev three_exchanges) \<and>
   aggregateTick (+) three_exchanges ''BTC'' 15 =
     aggregateTick (+) (rev three_exchanges) ''BTC'' 15 \<and>
   map price (agg_bids (aggregateTick js_add (rev three_exchanges) ''BTC'' 15)) = [100] \<and>
   map price (agg_asks (aggregateTick js_add (rev three_exchanges) ''BTC'' 15)) = []"
  using C6_aggregation_order_independent [of three_exchanges "rev three_exchanges"
      "''BTC''" 15 js_add]
  by (simp add: three_exchanges_tick)

text \<open>
  With the addition of the running code the sizes depend on the order of the exchanges:
  the bids of size 0.1, 0.2 and 0.3 at one price add up to 0.6000000000000001 in the
  order A, B, C and to 0.6 in the order C, B, A.
\<close>

theorem C6_counterexample:
  "mset three_exchanges = mset (rev three_exchanges) \<and>
   aggregateTick js_add three_exchanges ''BTC'' 15 =
     \<lparr>agg_bids = [\<lparr>price = 100, size' = 1351079888211149 / 2251799813685248\<rparr>],
      agg_asks = []\<rparr> \<and>
   aggregateTick js_add (rev three_exchanges) ''BTC'' 15 =
     \<lparr>agg_bids = [\<lparr>price = 100, size' = 5404319552844595 / 9007199254740992\<rparr>],
      agg_asks = []\<rparr> \<and>
   aggregateTick js_add three_exchanges ''BTC'' 15 \<noteq>
     aggregateTick js_add (rev three_exchanges) ''BTC'' 15"
  by (simp add: three_exchanges_tick)

subsection \<open>Properties of the prices map kept by every handler\<close>

text \<open>A property \<open>Q\<close> of the connector that only depends on the prices map and is kept
  by \<^verbatim>\<open>updatePricesOrderBook\<close> is kept by every handler that does not handle a price
  message.\<close>

lemma prices_installSnapshot [simp]: "prices (installSnapshot st t snap) = prices st"
  by (simp add: installSnapshot_def)

lemma keeps_applyDepthUpdate:
  assumes frame: "\<And>s s'. prices s' = prices s \<Longrightarrow> Q s \<Longrightarrow> Q s'"
    and upd: "\<And>s t now. Q s \<Longrightarrow> Q (updatePricesOrderBook s t now)"
    and "Q st"
  shows "Q (applyDepthUpdate st t d now)"
proof (cases "orderBooks st t")
  case None
  then show ?thesis using assms(3) by (simp add: applyDepthUpdate_def)
next
  case (Some ob)
  let ?gap = "initializeOrderBook (st\<lparr>isInitializing := (isInitializing st)(t \<mapsto> True)\<rparr>) t"
  let ?new = "st\<lparr>orderBooks := (orderBooks st)(t \<mapsto>
                    \<lparr>lastUpdateId = du_u d, bids = applyLevels (bids ob) (du_b d),
                     asks = applyLevels (asks ob) (du_a d)\<rparr>)\<rparr>"
  have g: "Q ?gap" by (rule frame [OF _ assms(3)]) simp
  have "Q ?new" by (rule frame [OF _ assms(3)]) simp
  then have n: "Q (updatePricesOrderBook ?new t now)" by (rule upd)
  show ?thesis using Some assms(3) g n by (simp add: applyDepthUpdate_def)
qed

lemma keeps_processDepthUpdate:
  assumes frame: "\<And>s s'. prices s' = prices s \<Longrightarrow> Q s \<Longrightarrow> Q s'"
    and upd: "\<And>s t now. Q s \<Longrightarrow> Q (updatePricesOrderBook s t now)"
    and "Q st"
  shows "Q (processDepthUpdate st d now)"
proof (cases "isInitializing st (du_s d) = Some True")
  case True
  have "prices (processDepthUpdate st d now) = prices st"
    using True by (simp add: processDepthUpdate_def Let_def)
  then show ?thesis using assms(3) by (rule frame)
next
  case False
  then show ?thesis
    using keeps_applyDepthUpdate [of Q, OF frame upd assms(3)]
    by (simp add: processDepthUpdate_def Let_def)
qed

lemma keeps_foldl_applyDepthUpdate:
  assumes frame: "\<And>s s'. prices s' = prices s \<Longrightarrow> Q s \<Longrightarrow> Q s'"
    and upd: "\<And>s t now. Q s \<Longrightarrow> Q (updatePricesOrderBook s t now)"
    and "Q st"
  shows "Q (foldl (\<lambda>s ev. applyDepthUpdate s t ev now) st evs)"
  using assms(3)
proof (induction evs arbitrary: st)
  case Nil
  then show ?case by simp
next
  case (Cons ev evs)
  have "Q (applyDepthUpdate st t ev now)"
    by (rule keeps_applyDepthUpdate [of Q, OF frame upd Cons.prems])
  then show ?case using Cons.IH by simp
qed

lemma prices_finishInitialize:
  "prices (finishInitialize st t now) = prices (updatePricesOrderBook st t now)"
  by (simp add: finishInitialize_def Let_def)

lemma keeps_install:
  assumes frame: "\<And>s s'. prices s' = prices s \<Longrightarrow> Q s \<Longrightarrow> Q s'"
    and upd: "\<And>s t now. Q s \<Longrightarrow> Q (updatePricesOrderBook s t now)"
    and "Q st"
  shows "Q (initializeOrderBook_install st t buffer snap now)"
proof -
  let ?s1 = "installSnapshot st t snap"
  let ?valid = "filter (\<lambda>ev. du_u ev > snap_lastUpdateId snap) buffer"
  have q1: "Q ?s1" by (rule frame [OF _ assms(3)]) simp
  have fin: "\<And>s. Q s \<Longrightarrow> Q (finishInitialize s t now)"
    by (rule frame [OF prices_finishInitialize]) (rule upd)
  have restart: "Q (initializeOrderBook ?s1 t)" by (rule frame [OF _ q1]) simp
  have replay: "Q (foldl (\<lambda>s ev. applyDepthUpdate s t ev now) ?s1 ?valid)"
    by (rule keeps_foldl_applyDepthUpdate [of Q, OF frame upd q1])
  show ?thesis
  proof (cases ?valid)
    case Nil
    then show ?thesis using fin [OF q1] by (simp add: initializeOrderBook_install_def Let_def)
  next
    case (Cons first rest)
    show ?thesis
    proof (cases "firstEventValid snap first")
      case True
      then show ?thesis
        using Cons fin [OF replay] by (simp add: initializeOrderBook_install_def Let_def)
    next
      case False
      then show ?thesis
        using Cons restart by (simp add: initializeOrderBook_install_def Let_def)
    qed
  qed
qed

lemma prices_foldl_initializeOrderBook [simp]:
  "prices (foldl initializeOrderBook st ks) = prices st"
  by (induction ks arbitrary: st) simp_all

lemma prices_simple_handlers [simp]:
  "prices (wsOnOpen st) = prices st"
  "prices (wsOnClose st code) = prices st"
  "prices (close st) = prices st"
  "prices (timerFired st tm) = prices st"
  "prices (snapshotRejected st fw) = prices st"
  by (simp_all add: wsOnOpen_def onSubscribe_def Let_def wsOnClose_def close_def
      timerFired_def snapshotRejected_def split: timer.splits)

lemma keeps_snapshotResolved:
  assumes frame: "\<And>s s'. prices s' = prices s \<Longrightarrow> Q s \<Longrightarrow> Q s'"
    and upd: "\<And>s t now. Q s \<Longrightarrow> Q (updatePricesOrderBook s t now)"
    and "Q st"
  shows "Q (snapshotResolved st fw buffer snap now)"
proof -
  let ?s1 = "st\<lparr>fetching := remove1 fw (fetching st)\<rparr>"
  have q1: "Q ?s1" by (rule frame [OF _ assms(3)]) simp
  have a: "Q (?s1\<lparr>fetching := fetching ?s1 @ [fw\<lparr>fw_second := True\<rparr>],
                  effects := effects ?s1 @ [FetchSnapshot (fw_ticker fw)]\<rparr>)"
    by (rule frame [OF _ assms(3)]) simp
  have b: "Q (initializeOrderBook_install ?s1 (fw_ticker fw) buffer snap now)"
    by (rule keeps_install [of Q, OF frame upd q1])
  show ?thesis
    using assms(3) a b by (simp add: snapshotResolved_def Let_def)
qed

lemma keeps_wsOnMessage:
  assumes frame: "\<And>s s'. prices s' = prices s \<Longrightarrow> Q s \<Longrightarrow> Q s'"
    and upd: "\<And>s t now. Q s \<Longrightarrow> Q (updatePricesOrderBook s t now)"
    and "Q st" and "\<And>t c. msg \<noteq> MiniTicker t c"
  shows "Q (wsOnMessage st msg now)"
proof (cases msg)
  case (Ping p)
  have "prices (wsOnMessage st msg now) = prices st"
    by (simp add: Ping wsOnMessage_def onMessage_def)
  then show ?thesis using assms(3) by (rule frame)
next
  case (MiniTicker t c)
  then show ?thesis using assms(4) by simp
next
  case (DepthUpdateMsg d)
  show ?thesis
    using keeps_processDepthUpdate [of Q, OF frame upd assms(3)] assms(3)
    by (simp add: DepthUpdateMsg wsOnMessage_def onMessage_def)
next
  case OtherMessage
  then show ?thesis using assms(3) by (simp add: wsOnMessage_def onMessage_def)
qed

lemma keeps_step:
  assumes frame: "\<And>s s'. prices s' = prices s \<Longrightarrow> Q s \<Longrightarrow> Q s'"
    and upd: "\<And>s t now. Q s \<Longrightarrow> Q (updatePricesOrderBook s t now)"
    and "Q st" and "\<not> isPriceMessage (fst e)"
  shows "Q (step st e)"
proof -
  obtain ev now where e: "e = (ev, now)" by (cases e)
  show ?thesis
  proof (cases ev)
    case (WsMessage msg)
    have "\<And>t c. msg \<noteq> MiniTicker t c"
      using assms(4) by (auto simp: e WsMessage isPriceMessage_def)
    from keeps_wsOnMessage [of Q, OF frame upd assms(3) this]
    show ?thesis by (simp add: e WsMessage step_def)
  next
    case WsOpen
    have "Q (wsOnOpen st)" by (rule frame [OF _ assms(3)]) simp
    then show ?thesis by (simp add: e WsOpen step_def)
  next
    case (WsClose code)
    have "Q (wsOnClose st code)" by (rule frame [OF _ assms(3)]) simp
    then show ?thesis by (simp add: e WsClose step_def)
  next
    case (TimerFired tm)
    have "Q (timerFired st tm)" by (rule frame [OF _ assms(3)]) simp
    then show ?thesis by (simp add: e TimerFired step_def)
  next
    case (SnapshotResolved fw buffer snap)
    from keeps_snapshotResolved [of Q, OF frame upd assms(3)]
    show ?thesis by (simp add: e SnapshotResolved step_def)
  next
    case (SnapshotRejected fw)
    have "Q (snapshotRejected st fw)" by (rule frame [OF _ assms(3)]) simp
    then show ?thesis by (simp add: e SnapshotRejected step_def)
  next
    case CloseCalled
    have "Q (close st)" by (rule frame [OF _ assms(3)]) simp
    then show ?thesis by (simp add: e CloseCalled step_def)
  qed
qed


subsection \<open>Sorted reads\<close>

lemma entry_sorted_book:
  "entry_sorted (Some
     \<lparr>tprice = p, lastUpdated = now,
      orders = \<lparr>bid = take orderBookDepth (sortDescending (entries b)),
                ask = take orderBookDepth (sortAscending (entries a)),
                orders_lastUpdateId = i\<rparr>\<rparr>)"
  by (simp add: entry_sorted_def orders_sorted_def sorted_wrt_take' sortDescending_strict
      sortAscending_strict distinct_prices_entries)

lemma sorted_updatePricesOrderBook:
  assumes "\<forall>k. entry_sorted (prices st k)"
  shows "\<forall>k. entry_sorted (prices (updatePricesOrderBook st t now) k)"
  using assms
  by (auto simp: updatePricesOrderBook_def updatePricesOrderBookWith_def Let_def
      entry_sorted_book split: option.splits)

lemma entry_sorted_currentData:
  "entry_sorted e \<Longrightarrow>
   entry_sorted (Some \<lparr>tprice = p, lastUpdated = now,
      orders = orders (case e of Some td \<Rightarrow> td | None \<Rightarrow> defaultData)\<rparr>)"
  by (cases e) (simp_all add: entry_sorted_def orders_sorted_def defaultData_def)

lemma sorted_priceMessage:
  assumes "\<forall>k. entry_sorted (prices st k)"
  shows "\<forall>k. entry_sorted (prices (wsOnMessage st (MiniTicker t c) now) k)"
  using assms entry_sorted_currentData [of "prices st (parseTicker t)"]
  by (auto simp: wsOnMessage_def onMessage_def Let_def currentDataOf_def)

lemma sorted_step:
  assumes "\<forall>k. entry_sorted (prices st k)"
  shows "\<forall>k. entry_sorted (prices (step st e) k)"
proof (cases "isPriceMessage (fst e)")
  case True
  then obtain t c now where "e = (WsMessage (MiniTicker t c), now)"
    by (cases e; cases "fst e"; auto simp: isPriceMessage_def split: binance_message.splits)
  then show ?thesis using sorted_priceMessage [OF assms] by (simp add: step_def)
next
  case False
  show ?thesis
    by (rule keeps_step [of "\<lambda>s. \<forall>k. entry_sorted (prices s k)", OF _ _ assms False])
      (simp_all add: sorted_updatePricesOrderBook)
qed

lemma sorted_run:
  "\<forall>k. entry_sorted (prices st k) \<Longrightarrow> \<forall>k. entry_sorted (prices (run st es) k)"
  unfolding run_def
proof (induction es arbitrary: st)
  case Nil
  then show ?case by simp
next
  case (Cons e es)
  from sorted_step [OF Cons.prems] have "\<forall>k. entry_sorted (prices (step st e) k)" .
  from Cons.IH [OF this] show ?case by simp
qed

lemma sorted_binance_new: "\<forall>k. entry_sorted (prices (binance_new ts) k)"
  by (simp add: binance_new_fields entry_sorted_def)

lemma updatePricesOrderBook_entry:
  assumes "orderBooks st t = Some ob"
  shows "prices (updatePricesOrderBook st t now) (parseTicker t) =
           Some \<lparr>tprice = tprice (currentDataOf (prices st) (parseTicker t)), lastUpdated = now,
                 orders = \<lparr>bid = take orderBookDepth (sortDescending (entries (bids ob))),
                           ask = take orderBookDepth (sortAscending (entries (asks ob))),
                           orders_lastUpdateId = Some (lastUpdateId ob)\<rparr>\<rparr>"
  using assms by (simp add: updatePricesOrderBook_def updatePricesOrderBookWith_def Let_def)

text \<open>
  C7. Every read of a book returns its bid levels strictly descending and its ask
  levels strictly ascending by price, and no more levels per side than the depth asked
  for: the aggregated book of the page for the selected depth, every entry of the prices
  map of a Binance connector after any sequence of events (for the depth 20 of the
  connector), and the entry \<^verbatim>\<open>updatePricesOrderBook\<close> writes for a ticker with a book.
\<close>

theorem C7_reads_sorted:
  "orders_sorted d
     \<lparr>bid = agg_bids (aggregateTick add exs selectedTicker d),
      ask = agg_asks (aggregateTick add exs selectedTicker d), orders_lastUpdateId = None\<rparr> \<and>
   (\<forall>k. entry_sorted (prices (run (binance_new ts) es) k)) \<and>
   (orderBooks st t = Some ob \<longrightarrow>
      prices (updatePricesOrderBook st t now) (parseTicker t) \<noteq> None \<and>
      entry_sorted (prices (updatePricesOrderBook st t now) (parseTicker t)))"
proof (intro conjI impI)
  show "orders_sorted d
     \<lparr>bid = agg_bids (aggregateTick add exs selectedTicker d),
      ask = agg_asks (aggregateTick add exs selectedTicker d), orders_lastUpdateId = None\<rparr>"
    by (rule aggregateTick_sorted)
  show "\<forall>k. entry_sorted (prices (run (binance_new ts) es) k)"
    by (rule sorted_run [OF sorted_binance_new])
  assume ob: "orderBooks st t = Some ob"
  show "prices (updatePricesOrderBook st t now) (parseTicker t) \<noteq> None"
    "entry_sorted (prices (updatePricesOrderBook st t now) (parseTicker t))"
    by (simp_all add: updatePricesOrderBook_entry [OF ob] entry_sorted_book)
qed


lemma startup_prices:
  "prices (run (binance_new [''BTC'']) startup_events) ''BTC'' =
     Some \<lparr>tprice = None, lastUpdated = 3,
           orders = \<lparr>bid = [\<lparr>price = 100, size' = 1\<rparr>, \<lparr>price = 99, size' = 1\<rparr>,
                            \<lparr>price = 98, size' = 3\<rparr>],
                     ask = [\<lparr>price = 101, size' = 3\<rparr>, \<lparr>price = 103, size' = 1\<rparr>],
                     orders_lastUpdateId = Some 501\<rparr>\<rparr>"
  by (simp add: startup_events_def handler_eval binance_eval ladder_eval example_inputs
      removeFirst.simps)

lemma exchanges_example2_tick:
  "aggregateTick (+) exchanges_example2 ''BTC'' 2 =
     \<lparr>agg_bids = [\<lparr>price = 101, size' = 3\<rparr>, \<lparr>price = 100, size' = 5\<rparr>],
      agg_asks = [\<lparr>price = 101, size' = 1\<rparr>, \<lparr>price = 102, size' = 5\<rparr>]\<rparr>"
  by (simp add: exchanges_example2_def aggregate_eval)

theorem C7_witness:
  "aggregateTick (+) exchanges_example2 ''BTC'' 2 =
     \<lparr>agg_bids = [\<lparr>price = 101, size' = 3\<rparr>, \<lparr>price = 100, size' = 5\<rparr>],
      agg_asks = [\<lparr>price = 101, size' = 1\<rparr>, \<lparr>price = 102, size' = 5\<rparr>]\<rparr> \<and>
   orders_sorted 2
     \<lparr>bid = [\<lparr>price = 101, size' = 3\<rparr>, \<lparr>price = 100, size' = 5\<rparr>],
      ask = [\<lparr>price = 101, size' = 1\<rparr>, \<lparr>price = 102, size' = 5\<rparr>],
      orders_lastUpdateId = None\<rparr> \<and>
   entry_sorted (prices (run (binance_new [''BTC'']) startup_events) ''BTC'') \<and>
   prices (run (binance_new [''BTC'']) startup_events) ''BTC'' =
     Some \<lparr>tprice = None, lastUpdated = 3,
           orders = \<lparr>bid = [\<lparr>price = 100, size' = 1\<rparr>, \<lparr>price = 99, size' = 1\<rparr>,
                            \<lparr>price = 98, size' = 3\<rparr>],
                     ask = [\<lparr>price = 101, size' = 3\<rparr>, \<lparr>price = 103, size' = 1\<rparr>],
                     orders_lastUpdateId = Some 501\<rparr>\<rparr> \<and>
   orderBooks live_example ''BTCUSDT'' =
     Some \<lparr>lastUpdateId = 10, bids = DAList.update 100 2 DAList.empty,
           asks = DAList.update 101 3 DAList.empty\<rparr> \<and>
   entry_sorted (prices (updatePricesOrderBook live_example ''BTCUSDT'' 5) (parseTicker ''BTCUSDT''))"
proof -
  note h = C7_reads_sorted [where d = 2 and add = "(+)" and exs = exchanges_example2
      and selectedTicker = "''BTC''" and ts = "[''BTC'']" and es = startup_events
      and st = live_example and t = "''BTCUSDT''" and now = 5
      and ob = "\<lparr>lastUpdateId = 10, bids = DAList.update 100 2 DAList.empty,
           asks = DAList.update 101 3 DAList.empty\<rparr>"]
  note r1 = h [THEN conjunct1]
  note r2 = h [THEN conjunct2, THEN conjunct1, THEN spec, of "''BTC''"]
  note r3 = h [THEN conjunct2, THEN conjunct2, THEN mp, OF live_example_book, THEN conjunct2]
  show ?thesis
    using r1 r2 r3 by (simp add: exchanges_example2_tick startup_prices live_example_book)
qed

subsection \<open>The price track and the order book track\<close>

lemma price_kept_updatePricesOrderBook:
  "tprice (currentDataOf (prices (updatePricesOrderBook st t now)) k) =
     tprice (currentDataOf (prices st) k)"
  by (simp add: updatePricesOrderBook_def updatePricesOrderBookWith_def Let_def currentDataOf_def
      split: option.splits)

lemma others_kept_updatePricesOrderBook:
  "k \<noteq> parseTicker t \<Longrightarrow> prices (updatePricesOrderBook st t now) k = prices st k"
  by (simp add: updatePricesOrderBook_def updatePricesOrderBookWith_def Let_def
      split: option.splits)

lemma price_kept_step:
  assumes "\<not> isPriceMessage (fst e)"
  shows "tprice (currentDataOf (prices (step st e)) k) = tprice (currentDataOf (prices st) k)"
proof -
  let ?Q = "\<lambda>s. tprice (currentDataOf (prices s) k) = tprice (currentDataOf (prices st) k)"
  have "?Q (step st e)"
    by (rule keeps_step [of ?Q, OF _ _ _ assms])
      (simp_all add: price_kept_updatePricesOrderBook)
  then show ?thesis .
qed

lemma priceMessage_prices:
  "prices (wsOnMessage st (MiniTicker t c) now) =
     (if t \<in> trackingPrice st
      then (prices st)(parseTicker t \<mapsto>
             \<lparr>tprice = Some c, lastUpdated = now,
              orders = orders (currentDataOf (prices st) (parseTicker t))\<rparr>)
      else prices st)"
  by (simp add: wsOnMessage_def onMessage_def Let_def)

lemma priceMessage_rest:
  "orderBooks (wsOnMessage st (MiniTicker t c) now) = orderBooks st"
  "isInitializing (wsOnMessage st (MiniTicker t c) now) = isInitializing st"
  "depthUpdateBuffers (wsOnMessage st (MiniTicker t c) now) = depthUpdateBuffers st"
  by (simp_all add: wsOnMessage_def onMessage_def Let_def)

lemma orders_kept_priceMessage:
  "orders (currentDataOf (prices (wsOnMessage st (MiniTicker t c) now)) k) =
     orders (currentDataOf (prices st) k)"
  by (simp add: priceMessage_prices currentDataOf_def)

text \<open>
  C9. The price track and the order book track do not touch each other's field of a
  ticker's stored data. No handler other than that of a price message changes the stored
  price of any ticker (an absent entry counting as a price that is undefined);
  \<^verbatim>\<open>updatePricesOrderBook\<close> in particular keeps the price and leaves the entries of
  other tickers as they are. A price message keeps the stored orders of every ticker (an
  absent entry counting as empty orders) and all order books, changes no entry but that
  of its ticker, and sets the price of a tracked ticker.
\<close>

theorem C9_tracks_independent:
  "(\<not> isPriceMessage (fst e) \<longrightarrow>
      tprice (currentDataOf (prices (step st e)) k) = tprice (currentDataOf (prices st) k)) \<and>
   tprice (currentDataOf (prices (updatePricesOrderBook st t now)) k) =
     tprice (currentDataOf (prices st) k) \<and>
   (k \<noteq> parseTicker t \<longrightarrow> prices (updatePricesOrderBook st t now) k = prices st k) \<and>
   orders (currentDataOf (prices (wsOnMessage st (MiniTicker t c) now)) k) =
     orders (currentDataOf (prices st) k) \<and>
   orderBooks (wsOnMessage st (MiniTicker t c) now) = orderBooks st \<and>
   (k \<noteq> parseTicker t \<longrightarrow> prices (wsOnMessage st (MiniTicker t c) now) k = prices st k) \<and>
   (t \<in> trackingPrice st \<longrightarrow>
      tprice (currentDataOf (prices (wsOnMessage st (MiniTicker t c) now)) (parseTicker t)) =
        Some c)"
proof (intro conjI impI)
  show "tprice (currentDataOf (prices (step st e)) k) = tprice (currentDataOf (prices st) k)"
    if "\<not> isPriceMessage (fst e)" using that by (rule price_kept_step)
  show "tprice (currentDataOf (prices (updatePricesOrderBook st t now)) k) =
     tprice (currentDataOf (prices st) k)"
    by (rule price_kept_updatePricesOrderBook)
  show "prices (updatePricesOrderBook st t now) k = prices st k" if "k \<noteq> parseTicker t"
    using that by (rule others_kept_updatePricesOrderBook)
  show "orders (currentDataOf (prices (wsOnMessage st (MiniTicker t c) now)) k) =
     orders (currentDataOf (prices st) k)"
    by (rule orders_kept_priceMessage)
  show "orderBooks (wsOnMessage st (MiniTicker t c) now) = orderBooks st"
    by (rule priceMessage_rest)
  show "prices (wsOnMessage st (MiniTicker t c) now) k = prices st k" if "k \<noteq> parseTicker t"
    using that by (simp add: priceMessage_prices)
  show "tprice (currentDataOf (prices (wsOnMessage st (MiniTicker t c) now)) (parseTicker t)) =
        Some c" if "t \<in> trackingPrice st"
    using that by (simp add: priceMessage_prices currentDataOf_def)
qed

lemma started_example_fields:
  "prices started_example ''BTC'' =
     Some \<lparr>tprice = None, lastUpdated = 3,
           orders = \<lparr>bid = [\<lparr>price = 100, size' = 1\<rparr>, \<lparr>price = 99, size' = 1\<rparr>,
                            \<lparr>price = 98, size' = 3\<rparr>],
                     ask = [\<lparr>price = 101, size' = 3\<rparr>, \<lparr>price = 103, size' = 1\<rparr>],
                     orders_lastUpdateId = Some 501\<rparr>\<rparr>"
  "trackingPrice started_example = {''BTCUSDT''}"
  "trackingOrderBook started_example = {''BTCUSDT''}"
  "isInitializing started_example ''BTCUSDT'' = Some False"
  by (simp_all add: started_example_def startup_events_def handler_eval binance_eval ladder_eval
      example_inputs removeFirst.simps)

lemma parseTicker_BTCUSDT: "parseTicker ''BTCUSDT'' = ''BTC''"
  by (simp add: parseTicker_def)


theorem C9_witness:
  "\<not> isPriceMessage (WsMessage (DepthUpdateMsg (update_502_505 ''BTCUSDT''))) \<and>
   tprice (currentDataOf
     (prices (step (wsOnMessage started_example (MiniTicker ''BTCUSDT'' 30000) 4)
               (WsMessage (DepthUpdateMsg (update_502_505 ''BTCUSDT'')), 5))) ''BTC'') =
     Some 30000 \<and>
   orders (currentDataOf
     (prices (step (wsOnMessage started_example (MiniTicker ''BTCUSDT'' 30000) 4)
               (WsMessage (DepthUpdateMsg (update_502_505 ''BTCUSDT'')), 5))) ''BTC'') =
     \<lparr>bid = [\<lparr>price = 99, size' = 4\<rparr>, \<lparr>price = 98, size' = 3\<rparr>],
      ask = [\<lparr>price = 103, size' = 1\<rparr>], orders_lastUpdateId = Some 505\<rparr> \<and>
   ''BTCUSDT'' \<in> trackingPrice started_example \<and>
   orders (currentDataOf (prices (wsOnMessage started_example (MiniTicker ''BTCUSDT'' 30000) 4))
     ''BTC'') =
     \<lparr>bid = [\<lparr>price = 100, size' = 1\<rparr>, \<lparr>price = 99, size' = 1\<rparr>, \<lparr>price = 98, size' = 3\<rparr>],
      ask = [\<lparr>price = 101, size' = 3\<rparr>, \<lparr>price = 103, size' = 1\<rparr>],
      orders_lastUpdateId = Some 501\<rparr> \<and>
   tprice (currentDataOf (prices (wsOnMessage started_example (MiniTicker ''BTCUSDT'' 30000) 4))
     ''BTC'') = Some 30000 \<and>
   orderBooks (wsOnMessage started_example (MiniTicker ''BTCUSDT'' 30000) 4) =
     orderBooks started_example \<and>
   ''ETH'' \<noteq> parseTicker ''BTCUSDT'' \<and>
   prices (wsOnMessage started_example (MiniTicker ''BTCUSDT'' 30000) 4) ''ETH'' =
     prices started_example ''ETH''"
proof -
  let ?priced = "wsOnMessage started_example (MiniTicker ''BTCUSDT'' 30000) 4"
  let ?e = "(WsMessage (DepthUpdateMsg (update_502_505 ''BTCUSDT'')), 5 :: int)"
  note h1 = C9_tracks_independent [where st = started_example and t = "''BTCUSDT''"
      and c = 30000 and now = 4 and k = "''BTC''"]
  note h2 = C9_tracks_independent [where st = ?priced and e = ?e and k = "''BTC''"]
  note h3 = C9_tracks_independent [where st = started_example and t = "''BTCUSDT''"
      and c = 30000 and now = 4 and k = "''ETH''"]
  have np: "\<not> isPriceMessage (fst ?e)" by (simp add: isPriceMessage_def)
  have tr: "''BTCUSDT'' \<in> trackingPrice started_example"
    by (simp add: started_example_fields)
  have ne: "''ETH'' \<noteq> parseTicker ''BTCUSDT''" by (simp add: parseTicker_BTCUSDT)
  note price_after =
    h1 [THEN conjunct2, THEN conjunct2, THEN conjunct2, THEN conjunct2, THEN conjunct2,
        THEN conjunct2, THEN mp, OF tr, unfolded parseTicker_BTCUSDT]
  note orders_after = h1 [THEN conjunct2, THEN conjunct2, THEN conjunct2, THEN conjunct1]
  note books_after =
    h1 [THEN conjunct2, THEN conjunct2, THEN conjunct2, THEN conjunct2, THEN conjunct1]
  note eth_after =
    h3 [THEN conjunct2, THEN conjunct2, THEN conjunct2, THEN conjunct2, THEN conjunct2,
        THEN conjunct1, THEN mp, OF ne]
  note price_kept = h2 [THEN conjunct1, THEN mp, OF np]
  have stored: "orders (currentDataOf (prices started_example) ''BTC'') =
     \<lparr>bid = [\<lparr>price = 100, size' = 1\<rparr>, \<lparr>price = 99, size' = 1\<rparr>, \<lparr>price = 98, size' = 3\<rparr>],
      ask = [\<lparr>price = 101, size' = 3\<rparr>, \<lparr>price = 103, size' = 1\<rparr>],
      orders_lastUpdateId = Some 501\<rparr>"
    by (simp add: currentDataOf_def started_example_fields)
  have applied: "orders (currentDataOf (prices (step ?priced ?e)) ''BTC'') =
     \<lparr>bid = [\<lparr>price = 99, size' = 4\<rparr>, \<lparr>price = 98, size' = 3\<rparr>],
      ask = [\<lparr>price = 103, size' = 1\<rparr>], orders_lastUpdateId = Some 505\<rparr>"
    by (simp add: started_example_def startup_events_def handler_eval binance_eval ladder_eval
        example_inputs removeFirst.simps)
  show ?thesis
    using np tr ne price_after orders_after books_after eth_after price_kept stored applied
    by (simp add: isPriceMessage_def)
qed

subsection \<open>After close\<close>

lemma quiet_checkBuffer [simp]: "reconnects (checkBuffer st t) = reconnects st"
  by (simp add: reconnects_def checkBuffer_def Let_def split: list.splits)

lemma quiet_initializeOrderBook [simp]: "reconnects (initializeOrderBook st t) = reconnects st"
  by (simp add: reconnects_def)

lemma quiet_updatePrices [simp]:
  "reconnects (updatePricesOrderBookWith f st t now) = reconnects st"
  by (simp add: reconnects_def)

lemma quiet_applyDepthUpdate [simp]:
  "reconnects (applyDepthUpdate st t d now) = reconnects st"
  "isClosing (applyDepthUpdate st t d now) = isClosing st"
proof -
  have r: "\<And>s. reconnects (s\<lparr>isInitializing := (isInitializing s)(t \<mapsto> True)\<rparr>) = reconnects s"
    by (simp add: reconnects_def)
  have b: "\<And>s x. reconnects (s\<lparr>orderBooks := x\<rparr>) = reconnects s"
    by (simp add: reconnects_def)
  show "reconnects (applyDepthUpdate st t d now) = reconnects st"
    by (simp add: applyDepthUpdate_def updatePricesOrderBook_def r b split: option.splits)
  show "isClosing (applyDepthUpdate st t d now) = isClosing st"
    by (simp add: applyDepthUpdate_def updatePricesOrderBook_def split: option.splits)
qed

lemma quiet_processDepthUpdate [simp]:
  "reconnects (processDepthUpdate st d now) = reconnects st"
  "isClosing (processDepthUpdate st d now) = isClosing st"
  by (simp_all add: processDepthUpdate_def Let_def reconnects_def [of "st\<lparr>depthUpdateBuffers := _\<rparr>"]
      reconnects_def [of st])

lemma quiet_foldl_applyDepthUpdate [simp]:
  "reconnects (foldl (\<lambda>s ev. applyDepthUpdate s t ev now) st evs) = reconnects st"
  "isClosing (foldl (\<lambda>s ev. applyDepthUpdate s t ev now) st evs) = isClosing st"
  by (induction evs arbitrary: st) simp_all

lemma quiet_installSnapshot [simp]:
  "reconnects (installSnapshot st t snap) = reconnects st"
  "isClosing (installSnapshot st t snap) = isClosing st"
  by (simp_all add: installSnapshot_def reconnects_def)

lemma quiet_finishInitialize [simp]:
  "reconnects (finishInitialize st t now) = reconnects st"
  "isClosing (finishInitialize st t now) = isClosing st"
  by (simp_all add: finishInitialize_def Let_def updatePricesOrderBook_def reconnects_def)

lemma quiet_install [simp]:
  "reconnects (initializeOrderBook_install st t buffer snap now) = reconnects st"
  "isClosing (initializeOrderBook_install st t buffer snap now) = isClosing st"
  by (simp_all add: initializeOrderBook_install_def Let_def split: list.splits)

lemma quiet_wsOnMessage:
  "reconnects (wsOnMessage st msg now) = reconnects st"
  "isClosing (wsOnMessage st msg now) = isClosing st"
proof -
  have p: "\<And>s x. reconnects (s\<lparr>prices := x\<rparr>) = reconnects s" by (simp add: reconnects_def)
  have e: "reconnects (st\<lparr>effects := effects st @ [Send ''pong'']\<rparr>) = reconnects st"
    by (simp add: reconnects_def)
  show "reconnects (wsOnMessage st msg now) = reconnects st"
    by (cases msg) (simp_all add: wsOnMessage_def onMessage_def Let_def p e)
  show "isClosing (wsOnMessage st msg now) = isClosing st"
    by (cases msg) (simp_all add: wsOnMessage_def onMessage_def Let_def)
qed

lemma quiet_timerFired:
  "reconnects (timerFired st tm) = reconnects st"
  "isClosing (timerFired st tm) = isClosing st"
proof -
  have r: "\<And>x. reconnects (st\<lparr>timers := x\<rparr>) = reconnects st" by (simp add: reconnects_def)
  show "reconnects (timerFired st tm) = reconnects st"
    by (cases tm) (simp_all add: timerFired_def Let_def r)
  show "isClosing (timerFired st tm) = isClosing st"
    by (cases tm) (simp_all add: timerFired_def Let_def)
qed

lemma quiet_snapshotResolved:
  "reconnects (snapshotResolved st fw buffer snap now) = reconnects st"
  "isClosing (snapshotResolved st fw buffer snap now) = isClosing st"
proof -
  have r: "\<And>x. reconnects (st\<lparr>fetching := x\<rparr>) = reconnects st" by (simp add: reconnects_def)
  have e: "\<And>x y. reconnects (st\<lparr>fetching := x, effects := effects st @ [FetchSnapshot y]\<rparr>) =
                reconnects st"
    by (simp add: reconnects_def)
  show "reconnects (snapshotResolved st fw buffer snap now) = reconnects st"
    by (simp add: snapshotResolved_def Let_def r e)
  show "isClosing (snapshotResolved st fw buffer snap now) = isClosing st"
    by (simp add: snapshotResolved_def Let_def)
qed

lemma quiet_simple_handlers:
  "isClosing st \<Longrightarrow> reconnects (wsOnOpen st) = reconnects st"
  "isClosing st \<Longrightarrow> reconnects (wsOnClose st code) = reconnects st"
  "reconnects (snapshotRejected st fw) = reconnects st"
  "reconnects (close st) = reconnects st"
  by (simp_all add: wsOnOpen_def wsOnClose_def snapshotRejected_def close_def reconnects_def)

lemma quiet_step:
  assumes "isClosing st"
  shows "isClosing (step st e)" and "reconnects (step st e) = reconnects st"
proof -
  obtain ev now where e: "e = (ev, now)" by (cases e)
  show "isClosing (step st e)"
    using assms
    by (cases ev)
      (simp_all add: e step_def quiet_wsOnMessage quiet_timerFired quiet_snapshotResolved
        wsOnOpen_def wsOnClose_def snapshotRejected_def close_def)
  show "reconnects (step st e) = reconnects st"
    using assms
    by (cases ev)
      (simp_all add: e step_def quiet_wsOnMessage quiet_timerFired quiet_snapshotResolved
        quiet_simple_handlers)
qed

lemma quiet_run:
  "isClosing st \<Longrightarrow> isClosing (run st es) \<and> reconnects (run st es) = reconnects st"
  unfolding run_def
proof (induction es arbitrary: st)
  case Nil
  then show ?case by simp
next
  case (Cons e es)
  from quiet_step [OF Cons.prems, of e] Cons.IH [of "step st e"] show ?case by simp
qed

text \<open>
  C8 (as amended). \<^verbatim>\<open>close()\<close> sets the closing flag and changes nothing else: the
  pending timers, the suspended snapshot requests and the buffers stay as they are. The
  flag is never cleared afterwards, and after \<^verbatim>\<open>close()\<close> no sequence of socket,
  timer and snapshot events makes the connector reconnect or subscribe again.
\<close>

theorem C8_close_stops_reconnecting:
  "isClosing (close st) \<and> timers (close st) = timers st \<and> fetching (close st) = fetching st \<and>
   depthUpdateBuffers (close st) = depthUpdateBuffers st \<and>
   effects (close st) = effects st \<and>
   isClosing (run (close st) es) \<and> reconnects (run (close st) es) = reconnects st"
proof -
  have c: "isClosing (close st)" by (simp add: close_def)
  have r: "reconnects (close st) = reconnects st" by (simp add: close_def reconnects_def)
  from quiet_run [OF c, of es] r show ?thesis by (simp add: close_def)
qed


lemma syncing_example_fields:
  "isInitializing syncing_example ''BTCUSDT'' = Some True"
  "timers syncing_example = [CheckBuffer ''BTCUSDT'']"
  "fetching syncing_example = []"
  "depthUpdateBuffers syncing_example ''BTCUSDT'' = Some [update_498_501 ''BTCUSDT'']"
  "effects syncing_example = [Send ''SUBSCRIBE'']"
  "isClosing syncing_example = False"
  by (simp_all add: syncing_example_def handler_eval binance_eval example_inputs)

lemma after_close_trace:
  "effects (run (close syncing_example) (take 1 events_after_close)) =
     [Send ''SUBSCRIBE'', FetchSnapshot ''BTCUSDT'']"
  "fetching (run (close syncing_example) (take 1 events_after_close)) = [first_fetch]"
  "timers (run (close syncing_example) (take 2 events_after_close)) = [RetryInit ''BTCUSDT'']"
  "timers (run (close syncing_example) events_after_close) = [CheckBuffer ''BTCUSDT'']"
  "depthUpdateBuffers (run (close syncing_example) events_after_close) ''BTCUSDT'' = Some []"
  by (simp_all add: syncing_example_def events_after_close_def first_fetch_def handler_eval
      binance_eval example_inputs)

theorem C8_witness:
  "isClosing (close syncing_example) \<and>
   timers (close syncing_example) = [CheckBuffer ''BTCUSDT''] \<and>
   depthUpdateBuffers (close syncing_example) ''BTCUSDT'' = Some [update_498_501 ''BTCUSDT''] \<and>
   isClosing (run (close syncing_example) (events_after_close @ [(WsClose 1006, 6), (WsOpen, 7)])) \<and>
   reconnects (run (close syncing_example) (events_after_close @ [(WsClose 1006, 6), (WsOpen, 7)])) =
     [Send ''SUBSCRIBE'']"
  using C8_close_stops_reconnecting [of syncing_example
      "events_after_close @ [(WsClose 1006, 6), (WsOpen, 7)]"]
  by (simp add: syncing_example_fields reconnects_def)

text \<open>
  \<^verbatim>\<open>close()\<close> cancels no timer and discards no buffer: closed while initializing with
  one update buffered, the connector still has its poll pending and its buffer filled;
  the poll then runs and requests a snapshot, the failure of that request arms the retry
  timer, and the retry starts \<^verbatim>\<open>initializeOrderBook\<close> again, which polls on.
\<close>

theorem C8_counterexample:
  "isInitializing syncing_example ''BTCUSDT'' = Some True \<and>
   isClosing (close syncing_example) \<and>
   timers (close syncing_example) = [CheckBuffer ''BTCUSDT''] \<and>
   depthUpdateBuffers (close syncing_example) ''BTCUSDT'' = Some [update_498_501 ''BTCUSDT''] \<and>
   effects (close syncing_example) = [Send ''SUBSCRIBE''] \<and>
   effects (run (close syncing_example) (take 1 events_after_close)) =
     [Send ''SUBSCRIBE'', FetchSnapshot ''BTCUSDT''] \<and>
   timers (run (close syncing_example) (take 2 events_after_close)) = [RetryInit ''BTCUSDT''] \<and>
   timers (run (close syncing_example) events_after_close) = [CheckBuffer ''BTCUSDT'']"
proof -
  have "isClosing (close syncing_example)"
    by (simp add: close_def)
  moreover have "timers (close syncing_example) = [CheckBuffer ''BTCUSDT'']"
    by (simp add: close_def syncing_example_fields)
  moreover have "depthUpdateBuffers (close syncing_example) ''BTCUSDT'' =
      Some [update_498_501 ''BTCUSDT'']"
    by (simp add: close_def syncing_example_fields)
  moreover have "effects (close syncing_example) = [Send ''SUBSCRIBE'']"
    by (simp add: close_def syncing_example_fields)
  ultimately show ?thesis
    by (simp only: after_close_trace syncing_example_fields simp_thms)
qed

end
